theory Spec2Isabelle
  imports Main "HOL-Library.Word" "HOL-Library.Sublist"
begin

unbundle bit_operations_syntax

section \<open>Values of the interpreter\<close>

text \<open>
  The module \<^verbatim>\<open>0x02-redis_basic/exercise.py\<close> is a thin layer over a Redis client.
  Its own code is translated function by function in the sections on the wrappers, on
  \<^verbatim>\<open>replay\<close> and on the class \<^verbatim>\<open>Cache\<close>. What it calls (the built-in conversions of
  the interpreter, \<^verbatim>\<open>uuid.uuid4\<close>, the client's serialisation and the five server commands)
  is written out first, so that every call of the module has a meaning.

  A \<^verbatim>\<open>bytes\<close> object is a list of 8-bit characters; a \<^verbatim>\<open>str\<close> is a list of Unicode
  code points. A \<^verbatim>\<open>float\<close> is carried by its \<^verbatim>\<open>repr\<close> text, the shortest decimal that
  reads back as the same float: the module never computes with a float, it only hands
  it to the client, which serialises it with \<^verbatim>\<open>repr\<close>.
\<close>

type_synonym bytes = string
type_synonym pystr = "nat list"

datatype pyval =
    PNone
  | PBool bool
  | PInt int
  | PFloat string
  | PStr pystr
  | PBytes bytes

datatype reply_error = WRONGTYPE | NotAnInteger | WouldOverflow

datatype error =
    DataError
  | ResponseError reply_error
  | UnicodeEncodeError
  | UnicodeDecodeError
  | ValueError
  | TypeError
  | AttributeError

definition ascii :: "string \<Rightarrow> pystr" where
  "ascii s = map of_char s"

subsection \<open>UTF-8\<close>

text \<open>
  \<^verbatim>\<open>str.encode('utf-8')\<close> with strict error handling: a surrogate code point cannot be
  encoded. \<^verbatim>\<open>bytes.decode('utf-8')\<close> refuses overlong forms, encoded surrogates,
  values above U+10FFFF, stray continuation bytes and truncated sequences.
\<close>

definition utf8_encode_cp :: "nat \<Rightarrow> bytes option" where
  "utf8_encode_cp c =
     (if c < 0x80 then Some [char_of c]
      else if c < 0x800 then Some [char_of (0xC0 + c div 64), char_of (0x80 + c mod 64)]
      else if 0xD800 \<le> c \<and> c < 0xE000 then None
      else if c < 0x10000 then
        Some [char_of (0xE0 + c div 4096), char_of (0x80 + c div 64 mod 64),
              char_of (0x80 + c mod 64)]
      else if c < 0x110000 then
        Some [char_of (0xF0 + c div 262144), char_of (0x80 + c div 4096 mod 64),
              char_of (0x80 + c div 64 mod 64), char_of (0x80 + c mod 64)]
      else None)"

fun utf8_encode :: "pystr \<Rightarrow> error + bytes" where
  "utf8_encode [] = Inr []"
| "utf8_encode (c # cs) =
     (case utf8_encode_cp c of
        None \<Rightarrow> Inl UnicodeEncodeError
      | Some bs \<Rightarrow>
          (case utf8_encode cs of Inl e \<Rightarrow> Inl e | Inr r \<Rightarrow> Inr (bs @ r)))"

definition is_cont :: "char \<Rightarrow> bool" where
  "is_cont b \<longleftrightarrow> 0x80 \<le> (of_char b :: nat) \<and> (of_char b :: nat) < 0xC0"

definition cont_bits :: "char \<Rightarrow> nat" where
  "cont_bits b = of_char b - 0x80"

text \<open>One code point from the front of a byte string, with the bytes that follow it.\<close>

fun utf8_next :: "bytes \<Rightarrow> (nat \<times> bytes) option" where
  "utf8_next [] = None"
| "utf8_next (b # bs) =
     (let n = (of_char b :: nat) in
      if n < 0x80 then Some (n, bs)
      else if 0xC2 \<le> n \<and> n < 0xE0 then
        (case bs of
           b1 # r \<Rightarrow>
             if is_cont b1 then Some ((n - 0xC0) * 64 + cont_bits b1, r) else None
         | _ \<Rightarrow> None)
      else if 0xE0 \<le> n \<and> n < 0xF0 then
        (case bs of
           b1 # b2 # r \<Rightarrow>
             (let c = (n - 0xE0) * 4096 + cont_bits b1 * 64 + cont_bits b2 in
              if is_cont b1 \<and> is_cont b2 \<and> 0x800 \<le> c \<and> \<not> (0xD800 \<le> c \<and> c < 0xE000)
              then Some (c, r) else None)
         | _ \<Rightarrow> None)
      else if 0xF0 \<le> n \<and> n < 0xF5 then
        (case bs of
           b1 # b2 # b3 # r \<Rightarrow>
             (let c = (n - 0xF0) * 262144 + cont_bits b1 * 4096 + cont_bits b2 * 64
                        + cont_bits b3 in
              if is_cont b1 \<and> is_cont b2 \<and> is_cont b3 \<and> 0x10000 \<le> c \<and> c < 0x110000
              then Some (c, r) else None)
         | _ \<Rightarrow> None)
      else None)"

lemma utf8_next_shorter: "utf8_next bs = Some (c, r) \<Longrightarrow> length r < length bs"
  by (cases bs) (auto simp: Let_def split: if_splits list.splits)

function utf8_decode :: "bytes \<Rightarrow> error + pystr" where
  "utf8_decode bs =
     (if bs = [] then Inr []
      else case utf8_next bs of
        None \<Rightarrow> Inl UnicodeDecodeError
      | Some (c, r) \<Rightarrow>
          (case utf8_decode r of Inl e \<Rightarrow> Inl e | Inr cs \<Rightarrow> Inr (c # cs)))"
  by pat_completeness auto
termination
  by (relation "measure length") (auto dest: utf8_next_shorter)

declare utf8_decode.simps [simp del]

subsection \<open>Decimal and hexadecimal text\<close>

text \<open>
  \<^verbatim>\<open>repr\<close> of an \<^verbatim>\<open>int\<close>, and the text the server keeps for a counter, are the
  same decimal numeral: a minus sign for a negative number, no leading zero.
\<close>

definition digit_char :: "nat \<Rightarrow> char" where
  "digit_char d = char_of (48 + d)"

fun digits :: "nat \<Rightarrow> string" where
  "digits n = (if n < 10 then [digit_char n] else digits (n div 10) @ [digit_char (n mod 10)])"

declare digits.simps [simp del]

definition decimal :: "int \<Rightarrow> string" where
  "decimal i = (if i < 0 then CHR ''-'' # digits (nat (- i)) else digits (nat i))"

definition is_digit :: "char \<Rightarrow> bool" where
  "is_digit c \<longleftrightarrow> 48 \<le> (of_char c :: nat) \<and> (of_char c :: nat) < 58"

definition digit_val :: "char \<Rightarrow> nat" where
  "digit_val c = of_char c - 48"

definition hex_digit :: "nat \<Rightarrow> nat" where
  "hex_digit d = (if d < 10 then 48 + d else 87 + d)"

text \<open>\<^verbatim>\<open>'%0Nx' % n\<close>: lower-case hexadecimal, padded with zeros to \<open>N\<close> digits.\<close>

definition hex_fixed :: "nat \<Rightarrow> nat \<Rightarrow> pystr" where
  "hex_fixed width n = map (\<lambda>i. hex_digit (n div 16 ^ (width - 1 - i) mod 16)) [0..<width]"

subsection \<open>The built-in conversions the module calls\<close>

text \<open>
  \<^verbatim>\<open>int(b)\<close> for a \<^verbatim>\<open>bytes\<close> object, base ten: white space around the numeral is
  skipped, one sign is allowed, and single underscores may separate digits. Anything
  else is a \<^verbatim>\<open>ValueError\<close>. (The interpreter's optional limit on the number of digits is
  left out.)
\<close>

definition is_space :: "char \<Rightarrow> bool" where
  "is_space c \<longleftrightarrow> (of_char c :: nat) = 32 \<or> (9 \<le> (of_char c :: nat) \<and> (of_char c :: nat) \<le> 13)"

fun int_digits :: "nat \<Rightarrow> string \<Rightarrow> nat option" where
  "int_digits acc [] = None"
| "int_digits acc (c # cs) =
     (if is_digit c then
        (let a = acc * 10 + digit_val c in
         case cs of
           [] \<Rightarrow> Some a
         | d # ds \<Rightarrow> if d = CHR ''_'' then int_digits a ds else int_digits a cs)
      else None)"

definition py_int :: "bytes \<Rightarrow> error + int" where
  "py_int b =
     (let s1 = dropWhile is_space b;
          neg = (case s1 of c # _ \<Rightarrow> c = CHR ''-'' | [] \<Rightarrow> False);
          s2 = (case s1 of c # r \<Rightarrow> if c = CHR ''-'' \<or> c = CHR ''+'' then r else s1 | [] \<Rightarrow> s1);
          s3 = rev (dropWhile is_space (rev s2))
      in case int_digits 0 s3 of
           None \<Rightarrow> Inl ValueError
         | Some m \<Rightarrow> Inr (if neg then - int m else int m))"

text \<open>
  \<^verbatim>\<open>repr\<close> of text and of bytes: the quote is a single quote unless the text holds a
  single quote and no double quote; the quote and the backslash are escaped, tab, line
  feed and carriage return have their letters, other control characters are written
  \<^verbatim>\<open>\xNN\<close>. Above ASCII a code point of a \<^verbatim>\<open>str\<close> is kept when the interpreter's Unicode
  tables call it printable (the argument \<open>printable\<close>) and escaped otherwise; a byte
  above ASCII is always escaped.
\<close>

definition quote_for :: "nat list \<Rightarrow> nat" where
  "quote_for s = (if 0x27 \<in> set s \<and> 0x22 \<notin> set s then 0x22 else 0x27)"

definition repr_char :: "(nat \<Rightarrow> bool) \<Rightarrow> nat \<Rightarrow> nat \<Rightarrow> pystr" where
  "repr_char printable q c =
     (if c = q \<or> c = 0x5C then [0x5C, c]
      else if c = 0x09 then [0x5C, 0x74]
      else if c = 0x0A then [0x5C, 0x6E]
      else if c = 0x0D then [0x5C, 0x72]
      else if c < 0x20 \<or> c = 0x7F then [0x5C, 0x78] @ hex_fixed 2 c
      else if c < 0x7F then [c]
      else if printable c then [c]
      else if c \<le> 0xFF then [0x5C, 0x78] @ hex_fixed 2 c
      else if c \<le> 0xFFFF then [0x5C, 0x75] @ hex_fixed 4 c
      else [0x5C, 0x55] @ hex_fixed 8 c)"

definition repr_quoted :: "(nat \<Rightarrow> bool) \<Rightarrow> nat list \<Rightarrow> pystr" where
  "repr_quoted printable s =
     (let q = quote_for s in q # concat (map (repr_char printable q) s) @ [q])"

definition bytes_repr :: "bytes \<Rightarrow> pystr" where
  "bytes_repr b = 0x62 # repr_quoted (\<lambda>c. False) (map of_char b)"

fun py_repr :: "(nat \<Rightarrow> bool) \<Rightarrow> pyval \<Rightarrow> pystr" where
  "py_repr printable PNone = ascii ''None''"
| "py_repr printable (PBool b) = (if b then ascii ''True'' else ascii ''False'')"
| "py_repr printable (PInt i) = ascii (decimal i)"
| "py_repr printable (PFloat r) = ascii r"
| "py_repr printable (PStr s) = repr_quoted printable s"
| "py_repr printable (PBytes b) = bytes_repr b"

fun comma_join :: "pystr list \<Rightarrow> pystr" where
  "comma_join [] = []"
| "comma_join [x] = x"
| "comma_join (x # y # ys) = x @ ascii '', '' @ comma_join (y # ys)"

text \<open>\<^verbatim>\<open>str(args)\<close> for the tuple of positional arguments.\<close>

definition py_str_tuple :: "(nat \<Rightarrow> bool) \<Rightarrow> pyval list \<Rightarrow> pystr" where
  "py_str_tuple printable args =
     (case args of
        [x] \<Rightarrow> ascii ''('' @ py_repr printable x @ ascii '',)''
      | _ \<Rightarrow> ascii ''('' @ comma_join (map (py_repr printable) args) @ ascii '')'')"

subsection \<open>uuid.uuid4\<close>

text \<open>
  \<^verbatim>\<open>uuid4()\<close> builds a UUID from sixteen random bytes (here one 128-bit word), forcing
  the variant and version bits, and \<^verbatim>\<open>str\<close> prints it as 32 hexadecimal digits in
  groups of 8, 4, 4, 4 and 12.
\<close>

definition uuid4_int :: "128 word \<Rightarrow> 128 word" where
  "uuid4_int r =
     (((r AND NOT (push_bit 48 0xc000)) OR push_bit 48 0x8000)
        AND NOT (push_bit 64 0xf000)) OR push_bit 76 4"

definition uuid_str :: "128 word \<Rightarrow> pystr" where
  "uuid_str u =
     (let h = hex_fixed 32 (unat u) in
      take 8 h @ [0x2D] @ take 4 (drop 8 h) @ [0x2D] @ take 4 (drop 12 h) @ [0x2D]
        @ take 4 (drop 16 h) @ [0x2D] @ drop 20 h)"

section \<open>The Redis server and its client\<close>

text \<open>
  The server keeps a key space of byte strings and lists of byte strings. The world
  outside the module is that key space, together with the commands the server has
  received so far (oldest first), the lines printed on standard output, the random
  bytes the operating system will hand out, and the interpreter's table of printable
  code points. Failures of the network are outside the model: a command that is sent
  is answered.
\<close>

datatype rval = RString bytes | RList "bytes list"

type_synonym keyspace = "bytes \<rightharpoonup> rval"

datatype command =
    FLUSHDB
  | SET bytes bytes
  | GET bytes
  | INCR bytes
  | RPUSH bytes bytes
  | LRANGE bytes int int

record world =
  db :: keyspace
  wire :: "command list"
  stdout :: "pystr list"
  entropy :: "nat \<Rightarrow> 128 word"
  unicode_printable :: "nat \<Rightarrow> bool"

type_synonym 'a outcome = "(error + 'a) \<times> world"

text \<open>Sequencing: an exception ends the computation and keeps the effects so far.\<close>

definition ret :: "'a \<Rightarrow> world \<Rightarrow> 'a outcome" where
  "ret x w = (Inr x, w)"

definition raise :: "error \<Rightarrow> world \<Rightarrow> 'a outcome" where
  "raise e w = (Inl e, w)"

definition then_do ::
  "(world \<Rightarrow> 'a outcome) \<Rightarrow> ('a \<Rightarrow> world \<Rightarrow> 'b outcome) \<Rightarrow> world \<Rightarrow> 'b outcome" where
  "then_do m f w = (case m w of (Inl e, w1) \<Rightarrow> (Inl e, w1) | (Inr x, w1) \<Rightarrow> f x w1)"

definition lift :: "error + 'a \<Rightarrow> world \<Rightarrow> 'a outcome" where
  "lift r w = (r, w)"

subsection \<open>Server commands\<close>

text \<open>
  \<^verbatim>\<open>INCR\<close> reads the value as a signed 64-bit integer in strict decimal form (no white
  space, no plus sign, no leading zero), and refuses to step past the largest one.
\<close>

definition string2ll :: "bytes \<Rightarrow> int option" where
  "string2ll s =
     (let neg = (case s of c # _ \<Rightarrow> c = CHR ''-'' | [] \<Rightarrow> False);
          ds = (if neg then tl s else s)
      in case ds of
           [] \<Rightarrow> None
         | d # _ \<Rightarrow>
             if list_all is_digit ds \<and> (if d = CHR ''0'' then s = ''0'' else True) then
               (let m = int (foldl (\<lambda>a c. a * 10 + digit_val c) 0 ds);
                    v = (if neg then - m else m)
                in if - (2 ^ 63) \<le> v \<and> v < 2 ^ 63 then Some v else None)
             else None)"

definition srv_get :: "bytes \<Rightarrow> keyspace \<Rightarrow> reply_error + bytes option" where
  "srv_get k d =
     (case d k of
        None \<Rightarrow> Inr None
      | Some (RString b) \<Rightarrow> Inr (Some b)
      | Some (RList xs) \<Rightarrow> Inl WRONGTYPE)"

definition srv_incr :: "bytes \<Rightarrow> keyspace \<Rightarrow> (reply_error + int) \<times> keyspace" where
  "srv_incr k d =
     (case d k of
        None \<Rightarrow> (Inr 1, d(k \<mapsto> RString (decimal 1)))
      | Some (RList xs) \<Rightarrow> (Inl WRONGTYPE, d)
      | Some (RString s) \<Rightarrow>
          (case string2ll s of
             None \<Rightarrow> (Inl NotAnInteger, d)
           | Some v \<Rightarrow>
               if v = 2 ^ 63 - 1 then (Inl WouldOverflow, d)
               else (Inr (v + 1), d(k \<mapsto> RString (decimal (v + 1))))))"

definition srv_rpush :: "bytes \<Rightarrow> bytes \<Rightarrow> keyspace \<Rightarrow> (reply_error + int) \<times> keyspace" where
  "srv_rpush k v d =
     (case d k of
        None \<Rightarrow> (Inr 1, d(k \<mapsto> RList [v]))
      | Some (RList xs) \<Rightarrow> (Inr (int (length xs) + 1), d(k \<mapsto> RList (xs @ [v])))
      | Some (RString s) \<Rightarrow> (Inl WRONGTYPE, d))"

definition lrange_slice :: "bytes list \<Rightarrow> int \<Rightarrow> int \<Rightarrow> bytes list" where
  "lrange_slice xs start stop =
     (let llen = int (length xs);
          s1 = (if start < 0 then llen + start else start);
          e1 = (if stop < 0 then llen + stop else stop);
          s2 = (if s1 < 0 then 0 else s1)
      in if s2 > e1 \<or> s2 \<ge> llen then []
         else
           (let e2 = (if e1 \<ge> llen then llen - 1 else e1)
            in take (nat (e2 - s2 + 1)) (drop (nat s2) xs)))"

definition srv_lrange :: "bytes \<Rightarrow> int \<Rightarrow> int \<Rightarrow> keyspace \<Rightarrow> reply_error + bytes list" where
  "srv_lrange k start stop d =
     (case d k of
        None \<Rightarrow> Inr []
      | Some (RList xs) \<Rightarrow> Inr (lrange_slice xs start stop)
      | Some (RString s) \<Rightarrow> Inl WRONGTYPE)"

subsection \<open>Client methods\<close>

text \<open>
  The client turns every argument into bytes before a command is sent: bytes as they
  are, text as UTF-8, an \<^verbatim>\<open>int\<close> or a \<^verbatim>\<open>float\<close> by its \<^verbatim>\<open>repr\<close>; a \<^verbatim>\<open>bool\<close>,
  \<^verbatim>\<open>None\<close> or any other object is refused with \<^verbatim>\<open>DataError\<close>. Replies come back as
  bytes (responses are not decoded by default). An error reply of the server is raised
  as \<^verbatim>\<open>ResponseError\<close>.
\<close>

fun encode :: "pyval \<Rightarrow> error + bytes" where
  "encode (PBytes b) = Inr b"
| "encode (PBool b) = Inl DataError"
| "encode (PInt i) = Inr (decimal i)"
| "encode (PFloat r) = Inr r"
| "encode (PStr s) = utf8_encode s"
| "encode PNone = Inl DataError"

definition send :: "command \<Rightarrow> world \<Rightarrow> world" where
  "send c w = w\<lparr>wire := wire w @ [c]\<rparr>"

definition r_flushdb :: "world \<Rightarrow> bool outcome" where
  "r_flushdb w = (Inr True, (send FLUSHDB w)\<lparr>db := Map.empty\<rparr>)"

definition r_set :: "pystr \<Rightarrow> pyval \<Rightarrow> world \<Rightarrow> bool outcome" where
  "r_set name v w =
     (case utf8_encode name of
        Inl e \<Rightarrow> (Inl e, w)
      | Inr k \<Rightarrow>
          (case encode v of
             Inl e \<Rightarrow> (Inl e, w)
           | Inr b \<Rightarrow> (Inr True, (send (SET k b) w)\<lparr>db := (db w)(k \<mapsto> RString b)\<rparr>)))"

definition r_get :: "pystr \<Rightarrow> world \<Rightarrow> (bytes option) outcome" where
  "r_get name w =
     (case utf8_encode name of
        Inl e \<Rightarrow> (Inl e, w)
      | Inr k \<Rightarrow>
          (case srv_get k (db w) of
             Inl e \<Rightarrow> (Inl (ResponseError e), send (GET k) w)
           | Inr x \<Rightarrow> (Inr x, send (GET k) w)))"

definition r_incr :: "pystr \<Rightarrow> world \<Rightarrow> int outcome" where
  "r_incr name w =
     (case utf8_encode name of
        Inl e \<Rightarrow> (Inl e, w)
      | Inr k \<Rightarrow>
          (case srv_incr k (db w) of
             (Inl e, d) \<Rightarrow> (Inl (ResponseError e), (send (INCR k) w)\<lparr>db := d\<rparr>)
           | (Inr n, d) \<Rightarrow> (Inr n, (send (INCR k) w)\<lparr>db := d\<rparr>)))"

definition r_rpush :: "pystr \<Rightarrow> pyval \<Rightarrow> world \<Rightarrow> int outcome" where
  "r_rpush name v w =
     (case utf8_encode name of
        Inl e \<Rightarrow> (Inl e, w)
      | Inr k \<Rightarrow>
          (case encode v of
             Inl e \<Rightarrow> (Inl e, w)
           | Inr b \<Rightarrow>
               (case srv_rpush k b (db w) of
                  (Inl e, d) \<Rightarrow> (Inl (ResponseError e), (send (RPUSH k b) w)\<lparr>db := d\<rparr>)
                | (Inr n, d) \<Rightarrow> (Inr n, (send (RPUSH k b) w)\<lparr>db := d\<rparr>))))"

definition r_lrange :: "pystr \<Rightarrow> int \<Rightarrow> int \<Rightarrow> world \<Rightarrow> (bytes list) outcome" where
  "r_lrange name start stop w =
     (case utf8_encode name of
        Inl e \<Rightarrow> (Inl e, w)
      | Inr k \<Rightarrow>
          (case srv_lrange k start stop (db w) of
             Inl e \<Rightarrow> (Inl (ResponseError e), send (LRANGE k start stop) w)
           | Inr xs \<Rightarrow> (Inr xs, send (LRANGE k start stop) w)))"

section \<open>The module\<close>

text \<open>
  An instance of \<^verbatim>\<open>Cache\<close> has one attribute, \<^verbatim>\<open>_redis\<close>. The constructor binds it to
  a client; nothing stops later code from rebinding it, and the wrappers and \<^verbatim>\<open>replay\<close>
  test it with \<^verbatim>\<open>isinstance(..., redis.Redis)\<close>. \<open>NotRedis\<close> stands for any other
  binding (such as \<^verbatim>\<open>None\<close>): calling a client method on it raises \<^verbatim>\<open>AttributeError\<close>.
\<close>

datatype handle = Redis | NotRedis

record cache =
  redis :: handle

definition client :: "cache \<Rightarrow> (world \<Rightarrow> 'a outcome) \<Rightarrow> world \<Rightarrow> 'a outcome" where
  "client self call = (if redis self = Redis then call else raise AttributeError)"

type_synonym kwargs = "(pystr \<times> pyval) list"

text \<open>
  A method of the class: its \<^verbatim>\<open>__qualname__\<close> and what a call
  \<^verbatim>\<open>method(self, *args, **kwargs)\<close> does.
\<close>

record pymethod =
  qualname :: pystr
  body :: "cache \<Rightarrow> pyval list \<Rightarrow> kwargs \<Rightarrow> world \<Rightarrow> pyval outcome"

text \<open>\<^verbatim>\<open>str(args)\<close>, which consults the interpreter's table of printable code points.\<close>

definition py_str :: "pyval list \<Rightarrow> world \<Rightarrow> pystr outcome" where
  "py_str args w = (Inr (py_str_tuple (unicode_printable w) args), w)"

subsection \<open>count_calls and call_history\<close>

text \<open>
  Both wrappers are declared \<^verbatim>\<open>invoker(self, *args, **kwargs)\<close>. A call on an instance
  passes the instance as the first positional argument, so a keyword argument that is
  itself named \<^verbatim>\<open>self\<close> gives that parameter a second value: the interpreter raises
  \<^verbatim>\<open>TypeError\<close> before the body of the wrapper runs. Every other keyword goes into
  \<^verbatim>\<open>kwargs\<close>.
\<close>

definition binds_self :: "kwargs \<Rightarrow> bool" where
  "binds_self kwargs \<longleftrightarrow> ascii ''self'' \<in> set (map fst kwargs)"

text \<open>\<^verbatim>\<open>functools.wraps\<close> gives the wrapper the \<^verbatim>\<open>__qualname__\<close> of the method it wraps.\<close>

definition count_calls :: "pymethod \<Rightarrow> pymethod" where
  "count_calls method =
     \<lparr> qualname = qualname method,
       body = (\<lambda>self args kwargs.
         if binds_self kwargs then raise TypeError
         else
         then_do (if redis self = Redis
                  then then_do (r_incr (qualname method)) (\<lambda>n. ret ())
                  else ret ()) (\<lambda>u.
         body method self args kwargs)) \<rparr>"

definition call_history :: "pymethod \<Rightarrow> pymethod" where
  "call_history method =
     \<lparr> qualname = qualname method,
       body = (\<lambda>self args kwargs.
         if binds_self kwargs then raise TypeError
         else
         let in_key = qualname method @ ascii '':inputs'';
             out_key = qualname method @ ascii '':outputs''
         in
         then_do (if redis self = Redis
                  then then_do (py_str args) (\<lambda>text.
                       then_do (r_rpush in_key (PStr text)) (\<lambda>n. ret ()))
                  else ret ()) (\<lambda>u.
         then_do (body method self args kwargs) (\<lambda>output.
         then_do (if redis self = Redis
                  then then_do (r_rpush out_key output) (\<lambda>n. ret ())
                  else ret ()) (\<lambda>u.
         ret output)))) \<rparr>"

subsection \<open>replay\<close>

text \<open>
  What \<^verbatim>\<open>replay\<close> can be handed: a falsy object, a callable without \<^verbatim>\<open>__self__\<close>
  (a plain function), or a bound method with its receiver and its \<^verbatim>\<open>__qualname__\<close>.
  The receiver is an instance with the attribute \<^verbatim>\<open>_redis\<close>, or some object without it.
\<close>

datatype receiver = Instance cache | Object

datatype callable = Falsy | Function pystr | BoundMethod receiver pystr

definition py_print :: "pystr \<Rightarrow> world \<Rightarrow> unit outcome" where
  "py_print line w = (Inr (), w\<lparr>stdout := stdout w @ [line]\<rparr>)"

text \<open>\<^verbatim>\<open>int(x or 0)\<close> for a reply \<open>x\<close> of \<^verbatim>\<open>GET\<close>: \<^verbatim>\<open>None\<close> and the empty bytes are falsy.\<close>

definition int_or_zero :: "bytes option \<Rightarrow> error + int" where
  "int_or_zero x =
     (case x of None \<Rightarrow> Inr 0 | Some b \<Rightarrow> if b = [] then Inr 0 else py_int b)"

definition entry_line :: "pystr \<Rightarrow> pystr \<Rightarrow> bytes \<Rightarrow> pystr" where
  "entry_line fxn_name input_text fxn_output =
     fxn_name @ ascii ''(*'' @ input_text @ ascii '') -> '' @ bytes_repr fxn_output"

definition summary_line :: "pystr \<Rightarrow> int \<Rightarrow> pystr" where
  "summary_line fxn_name fxn_call_count =
     fxn_name @ ascii '' was called '' @ ascii (decimal fxn_call_count) @ ascii '' times:''"

fun replay_loop :: "pystr \<Rightarrow> (bytes \<times> bytes) list \<Rightarrow> world \<Rightarrow> unit outcome" where
  "replay_loop fxn_name [] = ret ()"
| "replay_loop fxn_name ((fxn_input, fxn_output) # rest) =
     then_do (lift (utf8_decode fxn_input)) (\<lambda>input_text.
     then_do (py_print (entry_line fxn_name input_text fxn_output)) (\<lambda>u.
     replay_loop fxn_name rest))"

definition replay :: "callable \<Rightarrow> world \<Rightarrow> unit outcome" where
  "replay fn =
     (case fn of
        Falsy \<Rightarrow> ret ()
      | Function name \<Rightarrow> ret ()
      | BoundMethod Object name \<Rightarrow> ret ()
      | BoundMethod (Instance self) fxn_name \<Rightarrow>
          if redis self \<noteq> Redis then ret ()
          else
            (let in_key = fxn_name @ ascii '':inputs'';
                 out_key = fxn_name @ ascii '':outputs''
             in
             then_do (r_get fxn_name) (\<lambda>raw_count.
             then_do (lift (int_or_zero raw_count)) (\<lambda>fxn_call_count.
             then_do (py_print (summary_line fxn_name fxn_call_count)) (\<lambda>u.
             then_do (r_lrange in_key 0 (- 1)) (\<lambda>fxn_inputs.
             then_do (r_lrange out_key 0 (- 1)) (\<lambda>fxn_outputs.
             replay_loop fxn_name (zip fxn_inputs fxn_outputs))))))))"

subsection \<open>The class Cache\<close>

definition Cache_init :: "world \<Rightarrow> cache outcome" where
  "Cache_init = then_do r_flushdb (\<lambda>ok. ret \<lparr> redis = Redis \<rparr>)"

definition uuid4 :: "world \<Rightarrow> (128 word) outcome" where
  "uuid4 w = (Inr (uuid4_int (entropy w 0)), w\<lparr>entropy := (\<lambda>i. entropy w (Suc i))\<rparr>)"

text \<open>
  Binding the arguments of a call to the one parameter \<^verbatim>\<open>data\<close> of \<^verbatim>\<open>store\<close>: one
  positional argument or the keyword \<^verbatim>\<open>data\<close>, anything else is a \<^verbatim>\<open>TypeError\<close>.
\<close>

definition bind_data :: "pyval list \<Rightarrow> kwargs \<Rightarrow> error + pyval" where
  "bind_data args kwargs =
     (case (args, kwargs) of
        ([v], []) \<Rightarrow> Inr v
      | ([], [(k, v)]) \<Rightarrow> if k = ascii ''data'' then Inr v else Inl TypeError
      | _ \<Rightarrow> Inl TypeError)"

text \<open>The method \<^verbatim>\<open>store\<close> as written, before the decorators are applied.\<close>

definition store_plain :: pymethod where
  "store_plain =
     \<lparr> qualname = ascii ''Cache.store'',
       body = (\<lambda>self args kwargs.
         then_do (lift (bind_data args kwargs)) (\<lambda>data.
         then_do uuid4 (\<lambda>u.
         let data_key = uuid_str u in
         then_do (client self (r_set data_key data)) (\<lambda>ok.
         ret (PStr data_key))))) \<rparr>"

definition store :: pymethod where
  "store = call_history (count_calls store_plain)"

definition Cache_store :: "cache \<Rightarrow> pyval list \<Rightarrow> kwargs \<Rightarrow> world \<Rightarrow> pyval outcome" where
  "Cache_store = body store"

text \<open>
  \<^verbatim>\<open>get\<close>: the optional \<^verbatim>\<open>fn\<close> is applied to whatever the client returned, the bytes
  or \<^verbatim>\<open>None\<close>; without it the reply is returned as it is.
\<close>

definition raw_value :: "bytes option \<Rightarrow> pyval" where
  "raw_value data = (case data of None \<Rightarrow> PNone | Some b \<Rightarrow> PBytes b)"

definition Cache_get ::
  "cache \<Rightarrow> pystr \<Rightarrow> (bytes option \<Rightarrow> error + pyval) option \<Rightarrow> world \<Rightarrow> pyval outcome" where
  "Cache_get self key fn =
     then_do (client self (r_get key)) (\<lambda>data.
     case fn of Some f \<Rightarrow> lift (f data) | None \<Rightarrow> ret (raw_value data))"

text \<open>\<^verbatim>\<open>lambda x: x.decode('utf-8')\<close> and \<^verbatim>\<open>lambda x: int(x)\<close>.\<close>

definition decode_utf8 :: "bytes option \<Rightarrow> error + pyval" where
  "decode_utf8 x =
     (case x of
        None \<Rightarrow> Inl AttributeError
      | Some b \<Rightarrow> (case utf8_decode b of Inl e \<Rightarrow> Inl e | Inr s \<Rightarrow> Inr (PStr s)))"

definition to_int :: "bytes option \<Rightarrow> error + pyval" where
  "to_int x =
     (case x of
        None \<Rightarrow> Inl TypeError
      | Some b \<Rightarrow> (case py_int b of Inl e \<Rightarrow> Inl e | Inr i \<Rightarrow> Inr (PInt i)))"

definition Cache_get_str :: "cache \<Rightarrow> pystr \<Rightarrow> world \<Rightarrow> pyval outcome" where
  "Cache_get_str self key = Cache_get self key (Some decode_utf8)"

definition Cache_get_int :: "cache \<Rightarrow> pystr \<Rightarrow> world \<Rightarrow> pyval outcome" where
  "Cache_get_int self key = Cache_get self key (Some to_int)"

section \<open>Driving the facade\<close>

text \<open>
  Sequences of calls, as a caller would make them one after the other. In a sequence
  of reads, a call that raises is caught by the caller and the next call is made on the
  world it left; a sequence of calls of \<^verbatim>\<open>store\<close> ends at the first call that raises.
\<close>

datatype read_call =
    Get pystr "(bytes option \<Rightarrow> error + pyval) option"
  | GetStr pystr
  | GetInt pystr

fun perform_read :: "cache \<Rightarrow> read_call \<Rightarrow> world \<Rightarrow> pyval outcome" where
  "perform_read self (Get key fn) = Cache_get self key fn"
| "perform_read self (GetStr key) = Cache_get_str self key"
| "perform_read self (GetInt key) = Cache_get_int self key"

fun read_calls :: "cache \<Rightarrow> read_call list \<Rightarrow> world \<Rightarrow> world" where
  "read_calls self [] w = w"
| "read_calls self (c # cs) w = read_calls self cs (snd (perform_read self c w))"

fun store_calls :: "cache \<Rightarrow> (pyval list \<times> kwargs) list \<Rightarrow> world \<Rightarrow> (pyval list) outcome" where
  "store_calls self [] = ret []"
| "store_calls self ((args, kwargs) # rest) =
     then_do (Cache_store self args kwargs) (\<lambda>key.
     then_do (store_calls self rest) (\<lambda>keys.
     ret (key # keys)))"

text \<open>\<^verbatim>\<open>cache.get(cache.store(v))\<close>.\<close>

definition store_then_get :: "cache \<Rightarrow> pyval \<Rightarrow> world \<Rightarrow> pyval outcome" where
  "store_then_get self v =
     then_do (Cache_store self [v] []) (\<lambda>key.
     case key of PStr k \<Rightarrow> Cache_get self k None | _ \<Rightarrow> raise TypeError)"

text \<open>
  The list a key holds as \<^verbatim>\<open>RPUSH\<close> and \<^verbatim>\<open>LRANGE\<close> see it (a key that is not set
  holds no elements), and the state of the three instrumentation keys of an operation
  after \<open>n\<close> recorded calls.
\<close>

definition list_value :: "keyspace \<Rightarrow> bytes \<Rightarrow> bytes list option" where
  "list_value d k =
     (case d k of None \<Rightarrow> Some [] | Some (RList xs) \<Rightarrow> Some xs | Some (RString s) \<Rightarrow> None)"

definition recorded :: "bytes \<Rightarrow> nat \<Rightarrow> keyspace \<Rightarrow> bool" where
  "recorded q n d \<longleftrightarrow>
     d q = (if n = 0 then None else Some (RString (decimal (int n))))
     \<and> map_option length (list_value d (q @ '':inputs'')) = Some n
     \<and> map_option length (list_value d (q @ '':outputs'')) = Some n"

text \<open>
  A call that the instrumented \<^verbatim>\<open>store\<close> accepts: its arguments bind to the parameter,
  the value is one the client serialises, and the printed argument tuple can be encoded.
\<close>

definition accepted :: "(nat \<Rightarrow> bool) \<Rightarrow> pyval list \<times> kwargs \<Rightarrow> bool" where
  "accepted printable c =
     (case bind_data (fst c) (snd c) of
        Inl e \<Rightarrow> False
      | Inr data \<Rightarrow>
          (case encode data of
             Inl e \<Rightarrow> False
           | Inr b \<Rightarrow>
               (case utf8_encode (py_str_tuple printable (fst c)) of
                  Inl e \<Rightarrow> False
                | Inr s \<Rightarrow> True)))"

subsection \<open>Worlds and methods to run the module on\<close>

definition fresh_world :: world where
  "fresh_world =
     \<lparr> db = Map.empty, wire = [], stdout = [],
       entropy = (\<lambda>i. of_nat i), unicode_printable = (\<lambda>c. False) \<rparr>"

text \<open>A method whose result the client cannot serialise: it returns \<^verbatim>\<open>None\<close>.\<close>

definition returns_none :: pymethod where
  "returns_none = \<lparr> qualname = ascii ''k'', body = (\<lambda>self args kwargs. ret PNone) \<rparr>"

definition live :: cache where
  "live = \<lparr> redis = Redis \<rparr>"

definition detached :: cache where
  "detached = \<lparr> redis = NotRedis \<rparr>"

definition example_calls :: "(pyval list \<times> kwargs) list" where
  "example_calls =
     [([PStr (ascii ''a'')], []), ([PInt 7], []), ([], [(ascii ''data'', PBytes ''c'')])]"

text \<open>A store in which the key \<^verbatim>\<open>k\<close> holds one byte that is neither UTF-8 nor a numeral.\<close>

definition garbled_world :: world where
  "garbled_world = fresh_world\<lparr>db := [''k'' \<mapsto> RString [CHR 0xFF]]\<rparr>"


section \<open>Properties\<close>

subsection \<open>Decimal text read back\<close>

lemma of_char_digit_char: "d < 10 \<Longrightarrow> (of_char (digit_char d) :: nat) = 48 + d"
  by (simp add: digit_char_def)

lemma is_digit_digit_char: "d < 10 \<Longrightarrow> is_digit (digit_char d)"
  by (simp add: is_digit_def of_char_digit_char)

lemma digit_val_digit_char: "d < 10 \<Longrightarrow> digit_val (digit_char d) = d"
  by (simp add: digit_val_def of_char_digit_char)

lemma digits_nonempty: "digits n \<noteq> []"
  by (subst digits.simps) simp

lemma digits_all_digit: "list_all is_digit (digits n)"
proof (induction n rule: digits.induct)
  case (1 n)
  show ?case
  proof (cases "n < 10")
    case True
    then show ?thesis by (subst digits.simps) (simp add: is_digit_digit_char)
  next
    case False
    with 1 show ?thesis by (subst digits.simps) (simp add: is_digit_digit_char)
  qed
qed

lemma digits_value: "foldl (\<lambda>a c. a * 10 + digit_val c) 0 (digits n) = n"
proof (induction n rule: digits.induct)
  case (1 n)
  show ?case
  proof (cases "n < 10")
    case True
    then show ?thesis by (subst digits.simps) (simp add: digit_val_digit_char)
  next
    case False
    with 1 show ?thesis by (subst digits.simps) (simp add: digit_val_digit_char)
  qed
qed

lemma digits_hd_zero: "hd (digits n) = CHR ''0'' \<longleftrightarrow> n = 0"
proof (induction n rule: digits.induct)
  case (1 n)
  show ?case
  proof (cases "n < 10")
    case True
    have "(of_char (digit_char n) :: nat) = of_char CHR ''0'' \<longleftrightarrow> n = 0"
      using True by (simp add: of_char_digit_char)
    then have "digit_char n = CHR ''0'' \<longleftrightarrow> n = 0"
      by (simp only: of_char_eq_iff)
    with True show ?thesis by (subst digits.simps) simp
  next
    case False
    with 1 show ?thesis by (subst digits.simps) (simp add: digits_nonempty)
  qed
qed


lemma digits_not_minus: "hd (digits n) \<noteq> CHR ''-''"
proof -
  have "is_digit (hd (digits n))"
    using digits_all_digit [of n] digits_nonempty [of n]
    by (cases "digits n") simp_all
  then show ?thesis
    by (auto simp: is_digit_def)
qed

lemma digits_eq_zero: "digits n = ''0'' \<longleftrightarrow> n = 0"
proof
  assume "digits n = ''0''"
  then have "hd (digits n) = CHR ''0''" by simp
  then show "n = 0" by (simp add: digits_hd_zero)
next
  assume "n = 0"
  then show "digits n = ''0''"
    by (subst digits.simps) (simp add: digit_char_def char_of_eq_iff)
qed

lemma string2ll_digits:
  "string2ll (digits n) = (if int n < 2 ^ 63 then Some (int n) else None)"
proof -
  obtain d ds where ds: "digits n = d # ds"
    using digits_nonempty [of n] by (cases "digits n") auto
  have d: "d \<noteq> CHR ''-''" "d = CHR ''0'' \<longleftrightarrow> n = 0"
    using digits_not_minus [of n] digits_hd_zero [of n] ds by simp_all
  have all: "list_all is_digit (d # ds)"
    using digits_all_digit [of n] ds by simp
  have val: "foldl (\<lambda>a c. a * 10 + digit_val c) 0 (d # ds) = n"
    using digits_value [of n] ds by simp
  have z: "d # ds = ''0'' \<longleftrightarrow> n = 0"
    using digits_eq_zero [of n] ds by simp
  show ?thesis
    unfolding string2ll_def ds
    using d all z val by (auto simp add: Let_def simp del: foldl_Cons list.pred_inject)
qed

lemma string2ll_minus_digits:
  "0 < n \<Longrightarrow> string2ll (CHR ''-'' # digits n) = (if int n \<le> 2 ^ 63 then Some (- int n) else None)"
proof -
  assume n: "0 < n"
  obtain d ds where ds: "digits n = d # ds"
    using digits_nonempty [of n] by (cases "digits n") auto
  have d: "d \<noteq> CHR ''0''"
    using digits_hd_zero [of n] ds n by simp
  have all: "list_all is_digit (d # ds)"
    using digits_all_digit [of n] ds by simp
  have val: "foldl (\<lambda>a c. a * 10 + digit_val c) 0 (d # ds) = n"
    using digits_value [of n] ds by simp
  show ?thesis
    unfolding string2ll_def ds
    using d all val by (simp add: Let_def del: foldl_Cons list.pred_inject)
qed

lemma string2ll_decimal:
  "string2ll (decimal v) = (if - (2 ^ 63) \<le> v \<and> v < 2 ^ 63 then Some v else None)"
proof (cases "v < 0")
  case True
  then have "0 < nat (- v)" by simp
  from string2ll_minus_digits [OF this] True show ?thesis
    by (auto simp: decimal_def)
next
  case False
  with string2ll_digits [of "nat v"] show ?thesis
    by (auto simp: decimal_def)
qed


lemma is_digit_not_underscore: "is_digit c \<Longrightarrow> c \<noteq> CHR ''_''"
  by (auto simp: is_digit_def)

lemma is_digit_not_space: "is_digit c \<Longrightarrow> \<not> is_space c"
  by (auto simp: is_digit_def is_space_def)

lemma int_digits_all_digit:
  "ds \<noteq> [] \<Longrightarrow> list_all is_digit ds \<Longrightarrow>
   int_digits acc ds = Some (foldl (\<lambda>a c. a * 10 + digit_val c) acc ds)"
proof (induction ds arbitrary: acc)
  case Nil
  then show ?case by simp
next
  case (Cons c cs)
  show ?case
  proof (cases cs)
    case Nil
    with Cons.prems show ?thesis by simp
  next
    case (Cons d ds')
    with Cons.prems have d: "d \<noteq> CHR ''_''" and c: "is_digit c"
      by (simp_all add: is_digit_not_underscore)
    have "int_digits acc (c # cs) = int_digits (acc * 10 + digit_val c) cs"
      unfolding Cons using d c by (simp only: int_digits.simps Let_def list.case if_True if_False)
    also have "\<dots> = Some (foldl (\<lambda>a c. a * 10 + digit_val c) (acc * 10 + digit_val c) cs)"
      using Cons.prems Cons by (intro Cons.IH) simp_all
    finally show ?thesis by simp
  qed
qed

lemma strip_right_id:
  "s \<noteq> [] \<Longrightarrow> \<not> is_space (last s) \<Longrightarrow> rev (dropWhile is_space (rev s)) = s"
  by (induction s rule: rev_induct) simp_all

lemma last_digits_not_space: "\<not> is_space (last (digits n))"
proof -
  have "last (digits n) \<in> set (digits n)"
    using digits_nonempty by simp
  then have "is_digit (last (digits n))"
    using digits_all_digit [of n] by (simp add: list_all_iff)
  then show ?thesis by (rule is_digit_not_space)
qed

lemma py_int_digits: "py_int (digits n) = Inr (int n)"
proof -
  obtain d ds where ds: "digits n = d # ds"
    using digits_nonempty [of n] by (cases "digits n") auto
  have dd: "is_digit d"
    using digits_all_digit [of n] ds by simp
  then have d: "\<not> is_space d" "d \<noteq> CHR ''-''" "d \<noteq> CHR ''+''"
    by (auto simp: is_digit_def is_space_def)
  have strip: "rev (dropWhile is_space (rev (d # ds))) = d # ds"
    using strip_right_id [of "digits n"] last_digits_not_space [of n] ds by simp
  have "int_digits 0 (d # ds) = Some n"
    using int_digits_all_digit [of "digits n" 0] digits_all_digit [of n] digits_value [of n] ds
    by simp
  with d strip show ?thesis
    unfolding py_int_def ds by (simp add: Let_def del: int_digits.simps)
qed

lemma py_int_minus_digits: "py_int (CHR ''-'' # digits n) = Inr (- int n)"
proof -
  have strip: "rev (dropWhile is_space (rev (digits n))) = digits n"
    using strip_right_id [of "digits n"] last_digits_not_space [of n] digits_nonempty [of n]
    by simp
  have "int_digits 0 (digits n) = Some n"
    using int_digits_all_digit [of "digits n" 0] digits_all_digit [of n] digits_value [of n]
      digits_nonempty [of n]
    by simp
  with strip show ?thesis
    unfolding py_int_def by (simp add: Let_def is_space_def del: int_digits.simps)
qed

lemma py_int_decimal: "py_int (decimal v) = Inr v"
  using py_int_digits [of "nat v"] py_int_minus_digits [of "nat (- v)"]
  by (auto simp: decimal_def)

lemma decimal_nonempty: "decimal v \<noteq> []"
  by (simp add: decimal_def digits_nonempty)

subsection \<open>UTF-8 encoding and decoding\<close>

lemma utf8_encode_append:
  "utf8_encode (a @ b) =
     (case utf8_encode a of
        Inl e \<Rightarrow> Inl e
      | Inr x \<Rightarrow> (case utf8_encode b of Inl e \<Rightarrow> Inl e | Inr y \<Rightarrow> Inr (x @ y)))"
  by (induction a) (auto split: option.splits sum.splits)

lemma utf8_encode_low:
  "list_all (\<lambda>c. c < 128) s \<Longrightarrow> utf8_encode s = Inr (map char_of s)"
  by (induction s) (simp_all add: utf8_encode_cp_def)

lemma utf8_encode_ascii:
  "list_all (\<lambda>c. (of_char c :: nat) < 128) s \<Longrightarrow> utf8_encode (ascii s) = Inr s"
proof -
  assume a: "list_all (\<lambda>c. (of_char c :: nat) < 128) s"
  then have "list_all (\<lambda>c. c < 128) (ascii s)"
    by (simp add: ascii_def list_all_iff)
  then have "utf8_encode (ascii s) = Inr (map char_of (ascii s))"
    by (rule utf8_encode_low)
  then show ?thesis
    by (simp add: ascii_def)
qed

lemma ascii_append: "ascii (a @ b) = ascii a @ ascii b"
  by (simp add: ascii_def)

lemma split3: "(c::nat) div 4096 * 4096 + c div 64 mod 64 * 64 + c mod 64 = c"
proof -
  define q where "q = c div 64"
  define a where "a = q div 64"
  define b where "b = q mod 64"
  define r where "r = c mod 64"
  have 1: "a * 64 + b = q"
    unfolding a_def b_def by (rule div_mult_mod_eq)
  have 2: "q * 64 + r = c"
    unfolding q_def r_def by (rule div_mult_mod_eq)
  have 3: "c div 4096 = a"
    unfolding a_def q_def by (simp add: div_mult2_eq [symmetric])
  have "a * 4096 + b * 64 + r = c"
    using 1 2 by linarith
  then show ?thesis
    unfolding 3 unfolding b_def q_def r_def .
qed

lemma split4:
  "(c::nat) div 262144 * 262144 + c div 4096 mod 64 * 4096 + c div 64 mod 64 * 64 + c mod 64 = c"
proof -
  define q where "q = c div 4096"
  define a where "a = q div 64"
  define b where "b = q mod 64"
  define r where "r = c div 64 mod 64 * 64 + c mod 64"
  have 1: "a * 64 + b = q"
    unfolding a_def b_def by (rule div_mult_mod_eq)
  have 2: "q * 4096 + r = c"
    unfolding q_def r_def using split3 [of c] by (simp only: add.assoc)
  have 3: "c div 262144 = a"
    unfolding a_def q_def by (simp add: div_mult2_eq [symmetric])
  have "a * 262144 + b * 4096 + r = c"
    using 1 2 by linarith
  then show ?thesis
    unfolding 3 unfolding b_def q_def r_def by (simp only: add.assoc)
qed

lemma of_char_char_of_small: "n < 256 \<Longrightarrow> (of_char (char_of n) :: nat) = n"
  by simp

lemma utf8_next_encode_cp:
  assumes "utf8_encode_cp c = Some e"
  shows "utf8_next (e @ rest) = Some (c, rest)"
proof -
  consider (one) "c < 0x80"
    | (two) "0x80 \<le> c" "c < 0x800"
    | (three) "0x800 \<le> c" "c < 0x10000" "\<not> (0xD800 \<le> c \<and> c < 0xE000)"
    | (four) "0x10000 \<le> c" "c < 0x110000"
    using assms by (auto simp: utf8_encode_cp_def split: if_splits)
  then show ?thesis
  proof cases
    case one
    then have e: "e = [char_of c]"
      using assms by (simp add: utf8_encode_cp_def)
    show ?thesis
      unfolding e using one by simp
  next
    case two
    then have e: "e = [char_of (0xC0 + c div 64), char_of (0x80 + c mod 64)]"
      using assms by (simp add: utf8_encode_cp_def)
    have b0: "(of_char (char_of (0xC0 + c div 64)) :: nat) = 0xC0 + c div 64"
      using two by (intro of_char_char_of_small) simp
    have b1: "(of_char (char_of (0x80 + c mod 64)) :: nat) = 0x80 + c mod 64"
      by (intro of_char_char_of_small) simp
    have lo: "2 \<le> c div 64" "c div 64 < 32"
      using two by simp_all
    show ?thesis
      unfolding e using lo
      by (simp add: Let_def is_cont_def cont_bits_def b0 b1 del: of_char_of)
  next
    case three
    then have e: "e = [char_of (0xE0 + c div 4096), char_of (0x80 + c div 64 mod 64),
                       char_of (0x80 + c mod 64)]"
      using assms by (auto simp: utf8_encode_cp_def split: if_splits)
    have b0: "(of_char (char_of (0xE0 + c div 4096)) :: nat) = 0xE0 + c div 4096"
      using three by (intro of_char_char_of_small) simp
    have b1: "(of_char (char_of (0x80 + c div 64 mod 64)) :: nat) = 0x80 + c div 64 mod 64"
      by (intro of_char_char_of_small) simp
    have b2: "(of_char (char_of (0x80 + c mod 64)) :: nat) = 0x80 + c mod 64"
      by (intro of_char_char_of_small) simp
    have lo: "c div 4096 < 16"
      using three by simp
    show ?thesis
      unfolding e using lo three
      by (simp add: Let_def is_cont_def cont_bits_def b0 b1 b2 split3 del: of_char_of)
  next
    case four
    then have e: "e = [char_of (0xF0 + c div 262144), char_of (0x80 + c div 4096 mod 64),
                       char_of (0x80 + c div 64 mod 64), char_of (0x80 + c mod 64)]"
      using assms by (auto simp: utf8_encode_cp_def split: if_splits)
    have b0: "(of_char (char_of (0xF0 + c div 262144)) :: nat) = 0xF0 + c div 262144"
      using four by (intro of_char_char_of_small) simp
    have b1: "(of_char (char_of (0x80 + c div 4096 mod 64)) :: nat) = 0x80 + c div 4096 mod 64"
      by (intro of_char_char_of_small) simp
    have b2: "(of_char (char_of (0x80 + c div 64 mod 64)) :: nat) = 0x80 + c div 64 mod 64"
      by (intro of_char_char_of_small) simp
    have b3: "(of_char (char_of (0x80 + c mod 64)) :: nat) = 0x80 + c mod 64"
      by (intro of_char_char_of_small) simp
    have lo: "c div 262144 < 5"
      using four by simp
    show ?thesis
      unfolding e using lo four
      by (simp add: Let_def is_cont_def cont_bits_def b0 b1 b2 b3 split4 del: of_char_of)
  qed
qed

lemma utf8_encode_cp_nonempty: "utf8_encode_cp c = Some e \<Longrightarrow> e \<noteq> []"
  by (auto simp: utf8_encode_cp_def split: if_splits)

lemma utf8_decode_encode: "utf8_encode s = Inr b \<Longrightarrow> utf8_decode b = Inr s"
proof (induction s arbitrary: b)
  case Nil
  then show ?case by (simp add: utf8_decode.simps)
next
  case (Cons c cs)
  from Cons.prems obtain e r where e: "utf8_encode_cp c = Some e"
    and r: "utf8_encode cs = Inr r" and b: "b = e @ r"
    by (auto split: option.splits sum.splits)
  have "utf8_decode r = Inr cs" using r by (rule Cons.IH)
  moreover have "utf8_next (e @ r) = Some (c, r)" using e by (rule utf8_next_encode_cp)
  moreover have "e @ r \<noteq> []" using utf8_encode_cp_nonempty [OF e] by simp
  ultimately show ?case
    unfolding b by (subst utf8_decode.simps) simp
qed

subsection \<open>Sequencing\<close>

lemma then_do_ret [simp]: "then_do (ret x) f = f x"
  by (rule ext) (simp add: then_do_def ret_def)

lemma then_do_raise [simp]: "then_do (raise e) f = raise e"
  by (rule ext) (simp add: then_do_def raise_def)

lemma then_do_lift_Inr [simp]: "then_do (lift (Inr x)) f = f x"
  by (rule ext) (simp add: then_do_def lift_def)

lemma then_do_lift_Inl [simp]: "then_do (lift (Inl e)) f = raise e"
  by (rule ext) (simp add: then_do_def lift_def raise_def)

lemma then_do_assoc: "then_do (then_do m f) g = then_do m (\<lambda>x. then_do (f x) g)"
  by (rule ext) (simp add: then_do_def split: prod.splits sum.splits)

lemma then_do_Inr: "m w = (Inr x, w1) \<Longrightarrow> then_do m f w = f x w1"
  by (simp add: then_do_def)

lemma then_do_Inl: "m w = (Inl e, w1) \<Longrightarrow> then_do m f w = (Inl e, w1)"
  by (simp add: then_do_def)

subsection \<open>What the client methods leave in the key space\<close>

lemma r_get_db [simp]: "db (snd (r_get name w)) = db w"
  by (simp add: r_get_def send_def split: sum.splits)

lemma r_lrange_db [simp]: "db (snd (r_lrange name a b w)) = db w"
  by (simp add: r_lrange_def send_def split: sum.splits)

lemma r_flushdb_db [simp]: "db (snd (r_flushdb w)) = Map.empty"
  by (simp add: r_flushdb_def)

subsection \<open>Keys\<close>

lemma hex_digit_low: "d < 16 \<Longrightarrow> hex_digit d < 128"
  by (simp add: hex_digit_def)

lemma hex_fixed_low: "list_all (\<lambda>c. c < 128) (hex_fixed width n)"
  by (simp add: hex_fixed_def list_all_iff hex_digit_low)

lemma length_hex_fixed: "length (hex_fixed width n) = width"
  by (simp add: hex_fixed_def)

lemma list_all_take: "list_all P xs \<Longrightarrow> list_all P (take n xs)"
  by (auto simp: list_all_iff dest: in_set_takeD)

lemma list_all_drop: "list_all P xs \<Longrightarrow> list_all P (drop n xs)"
  by (auto simp: list_all_iff dest: in_set_dropD)

lemma uuid_str_low: "list_all (\<lambda>c. c < 128) (uuid_str u)"
  by (simp add: uuid_str_def Let_def list_all_take list_all_drop hex_fixed_low)

lemma length_uuid_str: "length (uuid_str u) = 36"
  by (simp add: uuid_str_def Let_def length_hex_fixed)

lemma utf8_encode_uuid_str: "utf8_encode (uuid_str u) = Inr (map char_of (uuid_str u))"
  using uuid_str_low by (rule utf8_encode_low)

lemma enc_name: "utf8_encode (ascii ''Cache.store'') = Inr ''Cache.store''"
  by (rule utf8_encode_ascii) simp

lemma utf8_encode_suffix:
  "utf8_encode name = Inr k \<Longrightarrow> list_all (\<lambda>c. (of_char c :: nat) < 128) s \<Longrightarrow>
   utf8_encode (name @ ascii s) = Inr (k @ s)"
  by (simp add: utf8_encode_append utf8_encode_ascii)


lemma enc_inputs:
  "utf8_encode (ascii ''Cache.store'' @ ascii '':inputs'') = Inr ''Cache.store:inputs''"
  using utf8_encode_suffix [OF enc_name, of "'':inputs''"] by simp

lemma enc_outputs:
  "utf8_encode (ascii ''Cache.store'' @ ascii '':outputs'') = Inr ''Cache.store:outputs''"
  using utf8_encode_suffix [OF enc_name, of "'':outputs''"] by simp

subsection \<open>Client methods, case by case\<close>

lemma then_do_InrE:
  assumes "then_do m f w = (Inr y, w')"
  obtains x w1 where "m w = (Inr x, w1)" and "f x w1 = (Inr y, w')"
  using assms by (auto simp: then_do_def split: prod.splits sum.splits)

lemma r_rpush_InrE:
  assumes "r_rpush name v w = (Inr n, w')"
  obtains k b xs where "utf8_encode name = Inr k" and "encode v = Inr b"
    and "list_value (db w) k = Some xs"
    and "w' = w\<lparr>wire := wire w @ [RPUSH k b], db := (db w)(k \<mapsto> RList (xs @ [b]))\<rparr>"
  using assms
  by (auto simp: r_rpush_def srv_rpush_def send_def list_value_def
      split: sum.splits option.splits rval.splits)

lemma r_incr_InrE:
  assumes "r_incr name w = (Inr n, w')"
  obtains k where "utf8_encode name = Inr k"
    and "db w k = None \<and> n = 1 \<or>
         (\<exists>s. db w k = Some (RString s) \<and> string2ll s = Some (n - 1))"
    and "w' = w\<lparr>wire := wire w @ [INCR k], db := (db w)(k \<mapsto> RString (decimal n))\<rparr>"
  using assms
  by (auto simp: r_incr_def srv_incr_def send_def
      split: sum.splits option.splits rval.splits if_splits)

lemma r_set_InrE:
  assumes "r_set name v w = (Inr ok, w')"
  obtains k b where "utf8_encode name = Inr k" and "encode v = Inr b"
    and "w' = w\<lparr>wire := wire w @ [SET k b], db := (db w)(k \<mapsto> RString b)\<rparr>"
  using assms
  by (auto simp: r_set_def send_def split: sum.splits)

lemma r_get_eq:
  "utf8_encode name = Inr k \<Longrightarrow>
   r_get name w =
     (case srv_get k (db w) of Inl e \<Rightarrow> Inl (ResponseError e) | Inr x \<Rightarrow> Inr x,
      w\<lparr>wire := wire w @ [GET k]\<rparr>)"
  by (simp add: r_get_def send_def split: sum.splits)

lemma r_lrange_eq:
  "utf8_encode name = Inr k \<Longrightarrow>
   r_lrange name a b w =
     (case srv_lrange k a b (db w) of Inl e \<Rightarrow> Inl (ResponseError e) | Inr x \<Rightarrow> Inr x,
      w\<lparr>wire := wire w @ [LRANGE k a b]\<rparr>)"
  by (simp add: r_lrange_def send_def split: sum.splits)

lemma lrange_slice_all: "lrange_slice xs 0 (- 1) = xs"
  by (cases xs) (simp_all add: lrange_slice_def Let_def)

lemma srv_lrange_all:
  "srv_lrange k 0 (- 1) d = (case list_value d k of None \<Rightarrow> Inl WRONGTYPE | Some xs \<Rightarrow> Inr xs)"
  by (simp add: srv_lrange_def list_value_def lrange_slice_all split: option.splits rval.splits)


subsection \<open>One call of store, step by step\<close>

lemma uuid_key_neq:
  "length k \<noteq> 36 \<Longrightarrow> map char_of (uuid_str u) \<noteq> k"
  "length k \<noteq> 36 \<Longrightarrow> k \<noteq> map char_of (uuid_str u)"
  using length_uuid_str [of u] by auto

lemma then_do_py_str: "then_do (py_str args) f w = f (py_str_tuple (unicode_printable w) args) w"
  by (simp add: then_do_def py_str_def)

lemma binds_self_simps [simp]:
  "\<not> binds_self []" "binds_self [(k, v)] \<longleftrightarrow> k = ascii ''self''"
  by (auto simp: binds_self_def)

lemma Cache_store_binds_self:
  "binds_self kwargs \<Longrightarrow> Cache_store self args kwargs w = (Inl TypeError, w)"
  by (simp add: Cache_store_def store_def call_history_def raise_def)

lemma bind_data_not_self: "bind_data args kwargs = Inr data \<Longrightarrow> \<not> binds_self kwargs"
  by (auto simp: bind_data_def binds_self_def ascii_def
      split: list.splits prod.splits if_splits)

lemma Cache_store_live:
  "redis self = Redis \<Longrightarrow> \<not> binds_self kwargs \<Longrightarrow>
   Cache_store self args kwargs w =
     then_do (r_rpush (ascii ''Cache.store'' @ ascii '':inputs'')
                (PStr (py_str_tuple (unicode_printable w) args))) (\<lambda>n1.
     then_do (r_incr (ascii ''Cache.store'')) (\<lambda>n2.
     then_do (lift (bind_data args kwargs)) (\<lambda>data.
     then_do uuid4 (\<lambda>u.
     then_do (r_set (uuid_str u) data) (\<lambda>ok.
     then_do (r_rpush (ascii ''Cache.store'' @ ascii '':outputs'') (PStr (uuid_str u))) (\<lambda>n3.
     ret (PStr (uuid_str u)))))))) w"
  by (simp add: Cache_store_def store_def call_history_def count_calls_def store_plain_def
      client_def Let_def then_do_assoc then_do_py_str)

lemma Cache_store_detached:
  "redis self \<noteq> Redis \<Longrightarrow> \<not> binds_self kwargs \<Longrightarrow>
   Cache_store self args kwargs w =
     then_do (lift (bind_data args kwargs)) (\<lambda>data.
     then_do uuid4 (\<lambda>u. raise AttributeError)) w"
  by (simp add: Cache_store_def store_def call_history_def count_calls_def store_plain_def
      client_def Let_def then_do_assoc)


lemma uuid4_eq: "uuid4 w = (Inr (uuid4_int (entropy w 0)), w\<lparr>entropy := (\<lambda>i. entropy w (Suc i))\<rparr>)"
  by (simp add: uuid4_def)

lemma Cache_store_not_live: "redis self \<noteq> Redis \<Longrightarrow> fst (Cache_store self args kwargs w) \<noteq> Inr r"
  by (cases "binds_self kwargs"; cases "bind_data args kwargs")
    (simp_all add: Cache_store_binds_self Cache_store_detached raise_def then_do_def uuid4_def)

lemma Cache_store_InrE:
  assumes "Cache_store self args kwargs w = (Inr r, w')"
  obtains s data b ins outs n where
    "redis self = Redis"
    and "utf8_encode (py_str_tuple (unicode_printable w) args) = Inr s"
    and "bind_data args kwargs = Inr data"
    and "encode data = Inr b"
    and "list_value (db w) ''Cache.store:inputs'' = Some ins"
    and "list_value (db w) ''Cache.store:outputs'' = Some outs"
    and "db w ''Cache.store'' = None \<and> n = 1 \<or>
         (\<exists>t. db w ''Cache.store'' = Some (RString t) \<and> string2ll t = Some (n - 1))"
    and "r = PStr (uuid_str (uuid4_int (entropy w 0)))"
    and "w' = w\<lparr>wire := wire w @
                 [RPUSH ''Cache.store:inputs'' s, INCR ''Cache.store'',
                  SET (map char_of (uuid_str (uuid4_int (entropy w 0)))) b,
                  RPUSH ''Cache.store:outputs'' (map char_of (uuid_str (uuid4_int (entropy w 0))))],
               db := (db w)
                 (''Cache.store:inputs'' \<mapsto> RList (ins @ [s]),
                  ''Cache.store'' \<mapsto> RString (decimal n),
                  map char_of (uuid_str (uuid4_int (entropy w 0))) \<mapsto> RString b,
                  ''Cache.store:outputs'' \<mapsto>
                     RList (outs @ [map char_of (uuid_str (uuid4_int (entropy w 0)))])),
               entropy := (\<lambda>i. entropy w (Suc i))\<rparr>"
proof -
  define u where "u = uuid4_int (entropy w 0)"
  define kb where "kb = map char_of (uuid_str u)"
  have live: "redis self = Redis"
    using assms Cache_store_not_live [of self args kwargs w r] by auto
  have nb: "\<not> binds_self kwargs"
    using assms Cache_store_binds_self [of kwargs self args w] by auto
  note run = assms [unfolded Cache_store_live [OF live nb]]
  from run obtain n1 w1 where
    1: "r_rpush (ascii ''Cache.store'' @ ascii '':inputs'')
          (PStr (py_str_tuple (unicode_printable w) args)) w = (Inr n1, w1)"
    and run1: "then_do (r_incr (ascii ''Cache.store'')) (\<lambda>n2.
      then_do (lift (bind_data args kwargs)) (\<lambda>data.
      then_do uuid4 (\<lambda>u.
      then_do (r_set (uuid_str u) data) (\<lambda>ok.
      then_do (r_rpush (ascii ''Cache.store'' @ ascii '':outputs'') (PStr (uuid_str u))) (\<lambda>n3.
      ret (PStr (uuid_str u))))))) w1 = (Inr r, w')"
    by (rule then_do_InrE)
  from 1 obtain s ins where s: "utf8_encode (py_str_tuple (unicode_printable w) args) = Inr s"
    and ins: "list_value (db w) ''Cache.store:inputs'' = Some ins"
    and w1: "w1 = w\<lparr>wire := wire w @ [RPUSH ''Cache.store:inputs'' s],
                     db := (db w)(''Cache.store:inputs'' \<mapsto> RList (ins @ [s]))\<rparr>"
    by (elim r_rpush_InrE) (simp add: enc_inputs)
  from run1 obtain n w2 where
    2: "r_incr (ascii ''Cache.store'') w1 = (Inr n, w2)"
    and run2: "then_do (lift (bind_data args kwargs)) (\<lambda>data.
      then_do uuid4 (\<lambda>u.
      then_do (r_set (uuid_str u) data) (\<lambda>ok.
      then_do (r_rpush (ascii ''Cache.store'' @ ascii '':outputs'') (PStr (uuid_str u))) (\<lambda>n3.
      ret (PStr (uuid_str u)))))) w2 = (Inr r, w')"
    by (rule then_do_InrE)
  from 2 have cnt: "db w ''Cache.store'' = None \<and> n = 1 \<or>
         (\<exists>t. db w ''Cache.store'' = Some (RString t) \<and> string2ll t = Some (n - 1))"
    and w2: "w2 = w1\<lparr>wire := wire w1 @ [INCR ''Cache.store''],
                      db := (db w1)(''Cache.store'' \<mapsto> RString (decimal n))\<rparr>"
    by (elim r_incr_InrE; simp add: enc_name w1)+
  from run2 obtain data where data: "bind_data args kwargs = Inr data"
    and run3: "then_do uuid4 (\<lambda>u.
      then_do (r_set (uuid_str u) data) (\<lambda>ok.
      then_do (r_rpush (ascii ''Cache.store'' @ ascii '':outputs'') (PStr (uuid_str u))) (\<lambda>n3.
      ret (PStr (uuid_str u))))) w2 = (Inr r, w')"
    by (cases "bind_data args kwargs") (simp_all add: raise_def)
  define w3 where "w3 = w2\<lparr>entropy := (\<lambda>i. entropy w2 (Suc i))\<rparr>"
  have u2: "uuid4_int (entropy w2 0) = u"
    by (simp add: u_def w2 w1)
  from run3 have run4: "then_do (r_set (uuid_str u) data) (\<lambda>ok.
      then_do (r_rpush (ascii ''Cache.store'' @ ascii '':outputs'') (PStr (uuid_str u))) (\<lambda>n3.
      ret (PStr (uuid_str u)))) w3 = (Inr r, w')"
    by (simp add: then_do_Inr [OF uuid4_eq] u2 w3_def)
  from run4 obtain ok w4 where
    4: "r_set (uuid_str u) data w3 = (Inr ok, w4)"
    and run5: "then_do (r_rpush (ascii ''Cache.store'' @ ascii '':outputs'') (PStr (uuid_str u)))
      (\<lambda>n3. ret (PStr (uuid_str u))) w4 = (Inr r, w')"
    by (rule then_do_InrE)
  from 4 obtain b where b: "encode data = Inr b"
    and w4: "w4 = w3\<lparr>wire := wire w3 @ [SET kb b], db := (db w3)(kb \<mapsto> RString b)\<rparr>"
    by (elim r_set_InrE) (simp add: utf8_encode_uuid_str kb_def)
  from run5 obtain n3 w5 where
    5: "r_rpush (ascii ''Cache.store'' @ ascii '':outputs'') (PStr (uuid_str u)) w4 = (Inr n3, w5)"
    and fin: "ret (PStr (uuid_str u)) w5 = (Inr r, w')"
    by (rule then_do_InrE)
  have kb_neq: "kb \<noteq> ''Cache.store:outputs''" "kb \<noteq> ''Cache.store''" "kb \<noteq> ''Cache.store:inputs''"
    unfolding kb_def by (rule uuid_key_neq, simp)+
  from 5 obtain k5 b5 outs where k5: "utf8_encode (ascii ''Cache.store'' @ ascii '':outputs'') = Inr k5"
    and b5: "encode (PStr (uuid_str u)) = Inr b5"
    and outs4: "list_value (db w4) k5 = Some outs"
    and w5': "w5 = w4\<lparr>wire := wire w4 @ [RPUSH k5 b5], db := (db w4)(k5 \<mapsto> RList (outs @ [b5]))\<rparr>"
    by (rule r_rpush_InrE)
  have k5_eq: "k5 = ''Cache.store:outputs''"
    using k5 by (simp add: enc_outputs)
  have b5_eq: "b5 = kb"
    using b5 by (simp add: utf8_encode_uuid_str kb_def)
  have "db w4 ''Cache.store:outputs'' = db w ''Cache.store:outputs''"
    using kb_neq by (simp add: w4 w3_def w2 w1)
  then have outs: "list_value (db w) ''Cache.store:outputs'' = Some outs"
    using outs4 by (simp add: list_value_def k5_eq)
  have w5: "w5 = w4\<lparr>wire := wire w4 @ [RPUSH ''Cache.store:outputs'' kb],
                     db := (db w4)(''Cache.store:outputs'' \<mapsto> RList (outs @ [kb]))\<rparr>"
    using w5' by (simp only: k5_eq b5_eq)
  from fin have r: "r = PStr (uuid_str u)" and w': "w' = w5"
    by (simp_all add: ret_def)
  have "w' = w\<lparr>wire := wire w @
                 [RPUSH ''Cache.store:inputs'' s, INCR ''Cache.store'', SET kb b,
                  RPUSH ''Cache.store:outputs'' kb],
               db := (db w)
                 (''Cache.store:inputs'' \<mapsto> RList (ins @ [s]),
                  ''Cache.store'' \<mapsto> RString (decimal n),
                  kb \<mapsto> RString b,
                  ''Cache.store:outputs'' \<mapsto> RList (outs @ [kb])),
               entropy := (\<lambda>i. entropy w (Suc i))\<rparr>"
    by (simp add: w' w5 w4 w3_def w2 w1)
  with live s data b ins outs cnt r show ?thesis
    unfolding kb_def u_def by (rule that)
qed

subsection \<open>The instrumentation keys after each call\<close>

lemma recorded_step:
  assumes rec: "recorded ''Cache.store'' n (db w)"
    and run: "Cache_store self args kwargs w = (Inr r, w')"
  shows "recorded ''Cache.store'' (Suc n) (db w')"
proof -
  from run obtain s b ins outs m where
    ins: "list_value (db w) ''Cache.store:inputs'' = Some ins"
    and outs: "list_value (db w) ''Cache.store:outputs'' = Some outs"
    and cnt: "db w ''Cache.store'' = None \<and> m = 1 \<or>
         (\<exists>t. db w ''Cache.store'' = Some (RString t) \<and> string2ll t = Some (m - 1))"
    and w': "w' = w\<lparr>wire := wire w @
                 [RPUSH ''Cache.store:inputs'' s, INCR ''Cache.store'',
                  SET (map char_of (uuid_str (uuid4_int (entropy w 0)))) b,
                  RPUSH ''Cache.store:outputs'' (map char_of (uuid_str (uuid4_int (entropy w 0))))],
               db := (db w)
                 (''Cache.store:inputs'' \<mapsto> RList (ins @ [s]),
                  ''Cache.store'' \<mapsto> RString (decimal m),
                  map char_of (uuid_str (uuid4_int (entropy w 0))) \<mapsto> RString b,
                  ''Cache.store:outputs'' \<mapsto>
                     RList (outs @ [map char_of (uuid_str (uuid4_int (entropy w 0)))])),
               entropy := (\<lambda>i. entropy w (Suc i))\<rparr>"
    by (rule Cache_store_InrE)
  define kb where "kb = map char_of (uuid_str (uuid4_int (entropy w 0)))"
  have kb_neq: "kb \<noteq> ''Cache.store:outputs''" "kb \<noteq> ''Cache.store''" "kb \<noteq> ''Cache.store:inputs''"
    unfolding kb_def by (rule uuid_key_neq, simp)+
  have m: "m = int (Suc n)"
  proof (cases "n = 0")
    case True
    with rec cnt show ?thesis by (auto simp: recorded_def)
  next
    case False
    with rec have "db w ''Cache.store'' = Some (RString (decimal (int n)))"
      by (simp add: recorded_def)
    with cnt have "string2ll (decimal (int n)) = Some (m - 1)"
      by auto
    then show ?thesis
      by (simp add: string2ll_decimal split: if_splits)
  qed
  have len: "length ins = n" "length outs = n"
    using rec ins outs by (auto simp: recorded_def)
  show ?thesis
    unfolding w' kb_def [symmetric] using kb_neq len m
    by (simp add: recorded_def list_value_def)
qed

lemma store_calls_recorded:
  "recorded ''Cache.store'' n (db w) \<Longrightarrow> store_calls self calls w = (Inr keys, w') \<Longrightarrow>
   recorded ''Cache.store'' (n + length calls) (db w') \<and> length keys = length calls"
proof (induction calls arbitrary: n w keys)
  case Nil
  then show ?case by (simp add: ret_def)
next
  case (Cons c calls)
  obtain args kwargs where c: "c = (args, kwargs)" by (cases c)
  from Cons.prems(2) obtain key w1 where
    1: "Cache_store self args kwargs w = (Inr key, w1)"
    and rest: "then_do (store_calls self calls) (\<lambda>keys. ret (key # keys)) w1 = (Inr keys, w')"
    unfolding c by (auto elim: then_do_InrE)
  from rest obtain ks where 2: "store_calls self calls w1 = (Inr ks, w')" and keys: "keys = key # ks"
    by (auto elim!: then_do_InrE simp: ret_def)
  have "recorded ''Cache.store'' (Suc n) (db w1)"
    using Cons.prems(1) 1 by (rule recorded_step)
  from Cons.IH [OF this 2] keys show ?case
    by simp
qed

lemma recorded_fresh: "recorded q 0 Map.empty"
  by (simp add: recorded_def list_value_def)

lemma recorded_counter_read:
  assumes "recorded q n (db w)" and "utf8_encode name = Inr q"
  shows "fst (then_do (r_get name) (\<lambda>raw. lift (int_or_zero raw)) w) = Inr (int n)"
proof (cases "n = 0")
  case True
  with assms show ?thesis
    by (simp add: recorded_def r_get_eq then_do_def srv_get_def lift_def int_or_zero_def)
next
  case False
  with assms show ?thesis
    by (simp add: recorded_def r_get_eq then_do_def srv_get_def lift_def int_or_zero_def
        py_int_decimal decimal_nonempty)
qed

lemma recorded_lists_read:
  assumes "recorded q n (db w)" and "utf8_encode name = Inr q"
  shows "\<exists>ins. fst (r_lrange (name @ ascii '':inputs'') 0 (- 1) w) = Inr ins \<and> length ins = n"
    and "\<exists>outs. fst (r_lrange (name @ ascii '':outputs'') 0 (- 1) w) = Inr outs \<and> length outs = n"
proof -
  have i: "utf8_encode (name @ ascii '':inputs'') = Inr (q @ '':inputs'')"
    using assms(2) by (rule utf8_encode_suffix) simp
  have o: "utf8_encode (name @ ascii '':outputs'') = Inr (q @ '':outputs'')"
    using assms(2) by (rule utf8_encode_suffix) simp
  show "\<exists>ins. fst (r_lrange (name @ ascii '':inputs'') 0 (- 1) w) = Inr ins \<and> length ins = n"
    using assms(1) by (auto simp: recorded_def r_lrange_eq [OF i] srv_lrange_all)
  show "\<exists>outs. fst (r_lrange (name @ ascii '':outputs'') 0 (- 1) w) = Inr outs \<and> length outs = n"
    using assms(1) by (auto simp: recorded_def r_lrange_eq [OF o] srv_lrange_all)
qed

subsection \<open>When a call of store succeeds\<close>

lemma r_rpush_ok:
  "utf8_encode name = Inr k \<Longrightarrow> encode v = Inr b \<Longrightarrow> list_value (db w) k = Some xs \<Longrightarrow>
   r_rpush name v w =
     (Inr (int (length xs) + 1),
      w\<lparr>wire := wire w @ [RPUSH k b], db := (db w)(k \<mapsto> RList (xs @ [b]))\<rparr>)"
  by (auto simp: r_rpush_def srv_rpush_def send_def list_value_def
      split: option.splits rval.splits)

lemma r_incr_unset:
  "utf8_encode name = Inr k \<Longrightarrow> db w k = None \<Longrightarrow>
   r_incr name w =
     (Inr 1, w\<lparr>wire := wire w @ [INCR k], db := (db w)(k \<mapsto> RString (decimal 1))\<rparr>)"
  by (simp add: r_incr_def srv_incr_def send_def)

lemma r_incr_decimal:
  "utf8_encode name = Inr k \<Longrightarrow> db w k = Some (RString (decimal v)) \<Longrightarrow>
   - (2 ^ 63) \<le> v \<Longrightarrow> v < 2 ^ 63 - 1 \<Longrightarrow>
   r_incr name w =
     (Inr (v + 1),
      w\<lparr>wire := wire w @ [INCR k], db := (db w)(k \<mapsto> RString (decimal (v + 1)))\<rparr>)"
  by (simp add: r_incr_def srv_incr_def send_def string2ll_decimal)

lemma r_set_ok:
  "utf8_encode name = Inr k \<Longrightarrow> encode v = Inr b \<Longrightarrow>
   r_set name v w =
     (Inr True, w\<lparr>wire := wire w @ [SET k b], db := (db w)(k \<mapsto> RString b)\<rparr>)"
  by (simp add: r_set_def send_def)

lemma recorded_incr:
  assumes "recorded ''Cache.store'' m d" and "int m < 2 ^ 63 - 1"
    and "db w = d(''Cache.store:inputs'' \<mapsto> x)"
  shows "r_incr (ascii ''Cache.store'') w =
     (Inr (int m + 1),
      w\<lparr>wire := wire w @ [INCR ''Cache.store''],
         db := (db w)(''Cache.store'' \<mapsto> RString (decimal (int m + 1)))\<rparr>)"
proof (cases "m = 0")
  case True
  with assms have "db w ''Cache.store'' = None"
    by (simp add: recorded_def)
  from r_incr_unset [OF enc_name this] True show ?thesis
    by simp
next
  case False
  with assms have "db w ''Cache.store'' = Some (RString (decimal (int m)))"
    by (simp add: recorded_def)
  from r_incr_decimal [OF enc_name this] assms(2) show ?thesis
    by simp
qed

lemma Cache_store_succeeds:
  assumes live: "redis self = Redis"
    and rec: "recorded ''Cache.store'' m (db w)"
    and m: "int m < 2 ^ 63 - 1"
    and acc: "accepted (unicode_printable w) (args, kwargs)"
  shows "fst (Cache_store self args kwargs w) = Inr (PStr (uuid_str (uuid4_int (entropy w 0))))"
proof -
  from acc obtain data b s where data: "bind_data args kwargs = Inr data"
    and b: "encode data = Inr b"
    and s: "utf8_encode (py_str_tuple (unicode_printable w) args) = Inr s"
    by (auto simp: accepted_def split: sum.splits)
  from rec obtain ins outs where ins: "list_value (db w) ''Cache.store:inputs'' = Some ins"
    and outs: "list_value (db w) ''Cache.store:outputs'' = Some outs"
    by (auto simp: recorded_def)
  define u where "u = uuid4_int (entropy w 0)"
  define kb where "kb = map char_of (uuid_str u)"
  have kb_neq: "kb \<noteq> ''Cache.store:outputs''" "kb \<noteq> ''Cache.store''" "kb \<noteq> ''Cache.store:inputs''"
    unfolding kb_def by (rule uuid_key_neq, simp)+
  define w1 where "w1 = w\<lparr>wire := wire w @ [RPUSH ''Cache.store:inputs'' s],
      db := (db w)(''Cache.store:inputs'' \<mapsto> RList (ins @ [s]))\<rparr>"
  define w2 where "w2 = w1\<lparr>wire := wire w1 @ [INCR ''Cache.store''],
      db := (db w1)(''Cache.store'' \<mapsto> RString (decimal (int m + 1)))\<rparr>"
  define w3 where "w3 = w2\<lparr>entropy := (\<lambda>i. entropy w2 (Suc i))\<rparr>"
  define w4 where "w4 = w3\<lparr>wire := wire w3 @ [SET kb b], db := (db w3)(kb \<mapsto> RString b)\<rparr>"
  have 1: "r_rpush (ascii ''Cache.store'' @ ascii '':inputs'')
      (PStr (py_str_tuple (unicode_printable w) args)) w = (Inr (int (length ins) + 1), w1)"
    unfolding w1_def using enc_inputs _ ins by (rule r_rpush_ok) (simp add: s)
  have 2: "r_incr (ascii ''Cache.store'') w1 = (Inr (int m + 1), w2)"
    unfolding w2_def using rec m by (rule recorded_incr) (simp add: w1_def)
  have 3: "uuid4 w2 = (Inr u, w3)"
    by (simp add: uuid4_def w3_def u_def w2_def w1_def)
  have 4: "r_set (uuid_str u) data w3 = (Inr True, w4)"
    unfolding w4_def kb_def using utf8_encode_uuid_str b by (rule r_set_ok)
  have lv: "list_value (db w4) ''Cache.store:outputs'' = Some outs"
    using outs kb_neq by (simp add: w4_def w3_def w2_def w1_def list_value_def)
  have enc5: "encode (PStr (uuid_str u)) = Inr kb"
    by (simp add: utf8_encode_uuid_str kb_def)
  have 5: "r_rpush (ascii ''Cache.store'' @ ascii '':outputs'') (PStr (uuid_str u)) w4 =
      (Inr (int (length outs) + 1),
       w4\<lparr>wire := wire w4 @ [RPUSH ''Cache.store:outputs'' kb],
          db := (db w4)(''Cache.store:outputs'' \<mapsto> RList (outs @ [kb]))\<rparr>)"
    by (rule r_rpush_ok [OF enc_outputs enc5 lv])
  show ?thesis
    unfolding Cache_store_live [OF live bind_data_not_self [OF data]] u_def [symmetric]
    by (simp add: then_do_def lift_def ret_def 1 2 data 3 4 5)
qed

lemma Cache_store_frame:
  assumes "Cache_store self args kwargs w = (Inr r, w')"
  shows "entropy w' = (\<lambda>i. entropy w (Suc i))" and "unicode_printable w' = unicode_printable w"
    and "stdout w' = stdout w"
  using assms by (auto elim!: Cache_store_InrE)

lemma store_calls_succeed:
  "redis self = Redis \<Longrightarrow> recorded ''Cache.store'' m (db w) \<Longrightarrow>
   int (m + length calls) < 2 ^ 63 \<Longrightarrow> list_all (accepted (unicode_printable w)) calls \<Longrightarrow>
   fst (store_calls self calls w) =
     Inr (map (\<lambda>i. PStr (uuid_str (uuid4_int (entropy w i)))) [0..<length calls])"
proof (induction calls arbitrary: m w)
  case Nil
  then show ?case by (simp add: ret_def)
next
  case (Cons c calls)
  obtain args kwargs where c: "c = (args, kwargs)" by (cases c)
  have m: "int m < 2 ^ 63 - 1"
    using Cons.prems(3) by simp
  have acc: "accepted (unicode_printable w) (args, kwargs)"
    using Cons.prems(4) c by simp
  define key where "key = PStr (uuid_str (uuid4_int (entropy w 0)))"
  have "fst (Cache_store self args kwargs w) = Inr key"
    unfolding key_def using Cons.prems(1,2) m acc by (rule Cache_store_succeeds)
  then obtain w1 where 1: "Cache_store self args kwargs w = (Inr key, w1)"
    by (cases "Cache_store self args kwargs w") simp
  have rec1: "recorded ''Cache.store'' (Suc m) (db w1)"
    using Cons.prems(2) 1 by (rule recorded_step)
  note fr = Cache_store_frame [OF 1]
  have "fst (store_calls self calls w1) =
     Inr (map (\<lambda>i. PStr (uuid_str (uuid4_int (entropy w1 i)))) [0..<length calls])"
    using Cons.prems(1) rec1
  proof (rule Cons.IH)
    show "int (Suc m + length calls) < 2 ^ 63"
      using Cons.prems(3) by simp
    show "list_all (accepted (unicode_printable w1)) calls"
      using Cons.prems(4) by (simp add: fr)
  qed
  then obtain w2 where 2: "store_calls self calls w1 =
     (Inr (map (\<lambda>i. PStr (uuid_str (uuid4_int (entropy w (Suc i))))) [0..<length calls]), w2)"
    by (cases "store_calls self calls w1") (simp add: fr)
  show ?case
    unfolding c
    by (simp add: then_do_Inr [where m = "Cache_store self args kwargs", OF 1]
        then_do_Inr [where m = "store_calls self calls", OF 2] ret_def key_def upt_conv_Cons
        map_Suc_upt [symmetric] del: upt_Suc)
qed

lemma Cache_init_eq:
  "Cache_init w = (Inr \<lparr> redis = Redis \<rparr>, w\<lparr>wire := wire w @ [FLUSHDB], db := Map.empty\<rparr>)"
  by (simp add: Cache_init_def then_do_def r_flushdb_def send_def ret_def)

lemma Cache_get_db: "db (snd (Cache_get self key fn w)) = db w"
proof (cases "redis self = Redis")
  case True
  obtain r w1 where g: "r_get key w = (r, w1)"
    by (cases "r_get key w")
  have "db w1 = db w"
    using r_get_db [of key w] g by simp
  with True g show ?thesis
    by (cases r; cases fn)
      (simp_all add: Cache_get_def client_def then_do_def lift_def ret_def)
next
  case False
  then show ?thesis
    by (simp add: Cache_get_def client_def raise_def)
qed

lemma perform_read_db: "db (snd (perform_read self c w)) = db w"
  by (cases c) (simp_all add: Cache_get_db Cache_get_str_def Cache_get_int_def)

text \<open>
  C10. A call of \<^verbatim>\<open>get\<close>, \<^verbatim>\<open>get_str\<close> or \<^verbatim>\<open>get_int\<close> writes nothing: whatever the key,
  the handle and the decode function, and whether the call returns or raises, the key
  space afterwards is the key space before, and so it is after any sequence of such
  calls. Stored values, counters and history lists are all entries of that key space.
\<close>

theorem get_is_read_only:
  "db (snd (Cache_get self key fn w)) = db w
   \<and> db (snd (Cache_get_str self key w)) = db w
   \<and> db (snd (Cache_get_int self key w)) = db w
   \<and> db (read_calls self calls w) = db w"
proof -
  have "db (read_calls self calls w) = db w"
    by (induction calls arbitrary: w) (simp_all add: perform_read_db)
  then show ?thesis
    by (simp add: Cache_get_db Cache_get_str_def Cache_get_int_def)
qed

text \<open>
  C8. Constructing the facade empties the store: after the constructor has run, on any
  world, no key is left, and the new instance holds a client. This is so for a second
  construction as well, whatever was stored through the first instance in between.
\<close>

theorem init_flushes_store:
  "db (snd (Cache_init w)) = Map.empty
   \<and> fst (Cache_init w) = Inr \<lparr> redis = Redis \<rparr>
   \<and> db (snd (Cache_init (snd (Cache_store self args kwargs (snd (Cache_init w)))))) = Map.empty"
  by (simp add: Cache_init_def then_do_def r_flushdb_def ret_def)

subsection \<open>Counting and history\<close>

text \<open>
  C3. Take a facade that has just been constructed and make \<open>N\<close> calls of \<^verbatim>\<open>store\<close>, every
  one of which returns. Then the counter under \<^verbatim>\<open>Cache.store\<close>, read the way \<^verbatim>\<open>replay\<close>
  reads it, is \<open>N\<close>, and the lists under \<^verbatim>\<open>Cache.store:inputs\<close> and
  \<^verbatim>\<open>Cache.store:outputs\<close> have \<open>N\<close> elements each; \<open>N\<close> keys were returned.
\<close>

theorem counter_and_history_after_calls:
  assumes "store_calls self calls (snd (Cache_init w0)) = (Inr keys, w)"
  shows "fst (then_do (r_get (ascii ''Cache.store'')) (\<lambda>raw. lift (int_or_zero raw)) w)
           = Inr (int (length calls))
       \<and> (\<exists>ins. fst (r_lrange (ascii ''Cache.store'' @ ascii '':inputs'') 0 (- 1) w) = Inr ins
              \<and> length ins = length calls)
       \<and> (\<exists>outs. fst (r_lrange (ascii ''Cache.store'' @ ascii '':outputs'') 0 (- 1) w) = Inr outs
              \<and> length outs = length calls)
       \<and> length keys = length calls"
proof -
  have "recorded ''Cache.store'' 0 (db (snd (Cache_init w0)))"
    by (simp add: Cache_init_eq recorded_fresh)
  from store_calls_recorded [OF this assms]
  have rec: "recorded ''Cache.store'' (length calls) (db w)" and len: "length keys = length calls"
    by simp_all
  from recorded_counter_read [OF rec enc_name] recorded_lists_read [OF rec enc_name] len
  show ?thesis
    by simp
qed

theorem counter_and_history_after_calls_witness:
  "(\<exists>keys. fst (store_calls live example_calls (snd (Cache_init fresh_world))) = Inr keys
        \<and> length keys = 3)
   \<and> fst (then_do (r_get (ascii ''Cache.store'')) (\<lambda>raw. lift (int_or_zero raw))
         (snd (store_calls live example_calls (snd (Cache_init fresh_world))))) = Inr 3
   \<and> (\<exists>ins. fst (r_lrange (ascii ''Cache.store'' @ ascii '':inputs'') 0 (- 1)
         (snd (store_calls live example_calls (snd (Cache_init fresh_world))))) = Inr ins
        \<and> length ins = 3)
   \<and> (\<exists>outs. fst (r_lrange (ascii ''Cache.store'' @ ascii '':outputs'') 0 (- 1)
         (snd (store_calls live example_calls (snd (Cache_init fresh_world))))) = Inr outs
        \<and> length outs = 3)"
proof -
  define w1 where "w1 = snd (Cache_init fresh_world)"
  have pr: "unicode_printable w1 = (\<lambda>c. False)"
    by (simp add: w1_def Cache_init_eq fresh_world_def)
  have acc: "list_all (accepted (unicode_printable w1)) example_calls"
    unfolding pr
    by (simp add: example_calls_def accepted_def bind_data_def ascii_def utf8_encode_cp_def
        py_str_tuple_def repr_quoted_def quote_for_def repr_char_def bytes_repr_def
        decimal_def digits.simps digit_char_def)
  have rec: "recorded ''Cache.store'' 0 (db w1)"
    by (simp add: w1_def Cache_init_eq recorded_fresh)
  have "fst (store_calls live example_calls w1) =
      Inr (map (\<lambda>i. PStr (uuid_str (uuid4_int (entropy w1 i)))) [0..<length example_calls])"
    using _ rec _ acc by (rule store_calls_succeed) (simp_all add: live_def example_calls_def)
  then obtain keys where k: "fst (store_calls live example_calls w1) = Inr keys"
    by simp
  then have run: "store_calls live example_calls (snd (Cache_init fresh_world))
      = (Inr keys, snd (store_calls live example_calls (snd (Cache_init fresh_world))))"
    unfolding w1_def by (simp add: prod_eq_iff)
  have l: "length example_calls = 3"
    by (simp add: example_calls_def)
  from counter_and_history_after_calls [OF run] k show ?thesis
    unfolding w1_def l by simp
qed

subsection \<open>What each client method sends\<close>








lemma fresh_world_simps:
  "db fresh_world = Map.empty" "wire fresh_world = []" "stdout fresh_world = []"
  "entropy fresh_world i = of_nat i" "unicode_printable fresh_world = (\<lambda>c. False)"
  by (simp_all add: fresh_world_def)



subsection \<open>Reading values back\<close>

lemma Cache_get_live:
  "redis self = Redis \<Longrightarrow> utf8_encode key = Inr k \<Longrightarrow>
   fst (Cache_get self key fn w) =
     (case db w k of
        None \<Rightarrow> (case fn of Some f \<Rightarrow> f None | None \<Rightarrow> Inr PNone)
      | Some (RString b) \<Rightarrow> (case fn of Some f \<Rightarrow> f (Some b) | None \<Rightarrow> Inr (PBytes b))
      | Some (RList xs) \<Rightarrow> Inl (ResponseError WRONGTYPE))"
  by (simp add: Cache_get_def client_def r_get_eq then_do_def srv_get_def lift_def ret_def
      raw_value_def split: option.splits rval.splits)

lemma utf8_decode_error: "utf8_decode b = Inl e \<Longrightarrow> e = UnicodeDecodeError"
proof (induction b rule: utf8_decode.induct)
  case (1 bs)
  from "1.prems" show ?case
    by (subst (asm) utf8_decode.simps)
      (auto split: if_splits option.splits sum.splits dest: "1.IH")
qed

lemma py_int_error: "py_int b = Inl e \<Longrightarrow> e = ValueError"
  by (auto simp: py_int_def Let_def split: option.splits)

text \<open>
  C9. Let the key hold a byte string. Without a decode function \<^verbatim>\<open>get\<close> returns those
  bytes as they are. With a decode function, an error raised by the function is the
  error the caller sees: for \<^verbatim>\<open>get_str\<close> a \<^verbatim>\<open>UnicodeDecodeError\<close> when the bytes are not
  UTF-8, for \<^verbatim>\<open>get_int\<close> a \<^verbatim>\<open>ValueError\<close> when they are not a numeral.
\<close>

theorem get_raw_and_decode_errors:
  assumes "redis self = Redis" and "utf8_encode key = Inr k" and "db w k = Some (RString b)"
  shows "fst (Cache_get self key None w) = Inr (PBytes b)
       \<and> (\<forall>f e. f (Some b) = Inl e \<longrightarrow> fst (Cache_get self key (Some f) w) = Inl e)
       \<and> (\<forall>e. utf8_decode b = Inl e \<longrightarrow>
             e = UnicodeDecodeError \<and> fst (Cache_get_str self key w) = Inl UnicodeDecodeError)
       \<and> (\<forall>e. py_int b = Inl e \<longrightarrow>
             e = ValueError \<and> fst (Cache_get_int self key w) = Inl ValueError)"
  using assms
  by (auto simp: Cache_get_live Cache_get_str_def Cache_get_int_def decode_utf8_def to_int_def
      dest: utf8_decode_error py_int_error)

lemma enc_k: "utf8_encode (ascii ''k'') = Inr ''k''"
  by (rule utf8_encode_ascii) simp

lemma garbled_examples:
  "utf8_decode [CHR 0xFF] = Inl UnicodeDecodeError" "py_int [CHR 0xFF] = Inl ValueError"
  by (simp_all add: utf8_decode.simps py_int_def is_space_def is_digit_def)

theorem get_raw_and_decode_errors_witness:
  "redis live = Redis \<and> utf8_encode (ascii ''k'') = Inr ''k''
   \<and> db garbled_world ''k'' = Some (RString [CHR 0xFF])
   \<and> fst (Cache_get live (ascii ''k'') None garbled_world) = Inr (PBytes [CHR 0xFF])
   \<and> fst (Cache_get_str live (ascii ''k'') garbled_world) = Inl UnicodeDecodeError
   \<and> fst (Cache_get_int live (ascii ''k'') garbled_world) = Inl ValueError"
proof -
  have 1: "redis live = Redis" by (simp add: live_def)
  have 3: "db garbled_world ''k'' = Some (RString [CHR 0xFF])"
    by (simp add: garbled_world_def)
  from get_raw_and_decode_errors [OF 1 enc_k 3] 1 enc_k 3 garbled_examples
  show ?thesis by simp
qed

text \<open>
  C2, as the code has it. For a key that is not set, \<^verbatim>\<open>get\<close> without a decode function
  returns \<^verbatim>\<open>None\<close> and does not raise. \<^verbatim>\<open>get_str\<close> and \<^verbatim>\<open>get_int\<close> pass a decode
  function, and \<^verbatim>\<open>get\<close> applies it whenever one is given: it is applied to \<^verbatim>\<open>None\<close>,
  and the caller sees an \<^verbatim>\<open>AttributeError\<close> from \<^verbatim>\<open>get_str\<close> and a \<^verbatim>\<open>TypeError\<close> from
  \<^verbatim>\<open>get_int\<close>.
\<close>

theorem get_on_absent_key:
  assumes "redis self = Redis" and "utf8_encode key = Inr k" and "db w k = None"
  shows "fst (Cache_get self key None w) = Inr PNone
       \<and> fst (Cache_get_str self key w) = Inl AttributeError
       \<and> fst (Cache_get_int self key w) = Inl TypeError"
  using assms
  by (simp add: Cache_get_live Cache_get_str_def Cache_get_int_def decode_utf8_def to_int_def)

theorem get_on_absent_key_witness:
  "redis live = Redis \<and> utf8_encode (ascii ''k'') = Inr ''k'' \<and> db fresh_world ''k'' = None
   \<and> fst (Cache_get live (ascii ''k'') None fresh_world) = Inr PNone
   \<and> fst (Cache_get_str live (ascii ''k'') fresh_world) = Inl AttributeError
   \<and> fst (Cache_get_int live (ascii ''k'') fresh_world) = Inl TypeError"
proof -
  have 1: "redis live = Redis" by (simp add: live_def)
  have 3: "db fresh_world ''k'' = None" by (simp add: fresh_world_def)
  from get_on_absent_key [OF 1 enc_k 3] 1 enc_k 3 show ?thesis by simp
qed

text \<open>
  The claim C2 as stated fails: on a world with no key at all, \<^verbatim>\<open>get_str\<close> and
  \<^verbatim>\<open>get_int\<close> raise instead of returning \<^verbatim>\<open>None\<close>.
\<close>

theorem typed_get_on_absent_key_raises:
  "fst (Cache_get_str live (ascii ''k'') fresh_world) = Inl AttributeError
   \<and> fst (Cache_get_int live (ascii ''k'') fresh_world) = Inl TypeError
   \<and> fst (Cache_get live (ascii ''k'') None fresh_world) = Inr PNone"
  by (simp add: Cache_get_live [OF _ enc_k] live_def fresh_world_def Cache_get_str_def
      Cache_get_int_def decode_utf8_def to_int_def)

lemma stored_after_store:
  assumes "Cache_store self [v] [] w = (Inr key, w1)"
  obtains b where "redis self = Redis"
    and "key = PStr (uuid_str (uuid4_int (entropy w 0)))"
    and "encode v = Inr b"
    and "db w1 (map char_of (uuid_str (uuid4_int (entropy w 0)))) = Some (RString b)"
proof -
  have neq: "map char_of (uuid_str (uuid4_int (entropy w 0))) \<noteq> ''Cache.store:outputs''"
    by (rule uuid_key_neq) simp
  from assms show ?thesis
  proof (rule Cache_store_InrE)
    fix s data b ins outs n
    assume "redis self = Redis" and "bind_data [v] [] = Inr data" and "encode data = Inr b"
      and "key = PStr (uuid_str (uuid4_int (entropy w 0)))"
      and w1: "w1 = w\<lparr>wire := wire w @
                 [RPUSH ''Cache.store:inputs'' s, INCR ''Cache.store'',
                  SET (map char_of (uuid_str (uuid4_int (entropy w 0)))) b,
                  RPUSH ''Cache.store:outputs'' (map char_of (uuid_str (uuid4_int (entropy w 0))))],
               db := (db w)
                 (''Cache.store:inputs'' \<mapsto> RList (ins @ [s]),
                  ''Cache.store'' \<mapsto> RString (decimal n),
                  map char_of (uuid_str (uuid4_int (entropy w 0))) \<mapsto> RString b,
                  ''Cache.store:outputs'' \<mapsto>
                     RList (outs @ [map char_of (uuid_str (uuid4_int (entropy w 0)))])),
               entropy := (\<lambda>i. entropy w (Suc i))\<rparr>"
    moreover from w1 neq
    have "db w1 (map char_of (uuid_str (uuid4_int (entropy w 0)))) = Some (RString b)"
      by simp
    ultimately show ?thesis
      by (intro that [of b]) (simp_all add: bind_data_def)
  qed
qed

lemma store_then_get_value:
  assumes "Cache_store self [v] [] w = (Inr key, w1)"
  shows "\<exists>b. encode v = Inr b \<and> fst (store_then_get self v w) = Inr (PBytes b)"
proof -
  from assms obtain b where live: "redis self = Redis"
    and key: "key = PStr (uuid_str (uuid4_int (entropy w 0)))"
    and b: "encode v = Inr b"
    and held: "db w1 (map char_of (uuid_str (uuid4_int (entropy w 0)))) = Some (RString b)"
    by (rule stored_after_store)
  have "fst (Cache_get self (uuid_str (uuid4_int (entropy w 0))) None w1) = Inr (PBytes b)"
    by (simp add: Cache_get_live [OF live utf8_encode_uuid_str] held)
  then have "fst (store_then_get self v w) = Inr (PBytes b)"
    by (simp add: store_then_get_def then_do_def assms key)
  with b show ?thesis by blast
qed

text \<open>
  C1, as the code has it. When \<^verbatim>\<open>store(v)\<close> returns, \<^verbatim>\<open>get\<close> on the returned key gives
  the bytes under which the client serialised \<open>v\<close>: \<open>v\<close> itself when \<open>v\<close> is a \<^verbatim>\<open>bytes\<close>
  object, the UTF-8 encoding of a \<^verbatim>\<open>str\<close>, the \<^verbatim>\<open>repr\<close> text of an \<^verbatim>\<open>int\<close> or a
  \<^verbatim>\<open>float\<close>. The text is recovered by \<^verbatim>\<open>get_str\<close> and the integer by \<^verbatim>\<open>get_int\<close>.
\<close>

theorem get_after_store:
  assumes "Cache_store self [v] [] w = (Inr key, w1)"
  shows "\<exists>k b. key = PStr k \<and> encode v = Inr b
       \<and> fst (store_then_get self v w) = Inr (PBytes b)
       \<and> fst (Cache_get self k None w1) = Inr (PBytes b)
       \<and> (\<forall>x. v = PBytes x \<longrightarrow> fst (store_then_get self v w) = Inr v)
       \<and> (\<forall>s. v = PStr s \<longrightarrow> fst (Cache_get_str self k w1) = Inr v)
       \<and> (\<forall>i. v = PInt i \<longrightarrow> fst (Cache_get_int self k w1) = Inr v)"
proof -
  define k where "k = uuid_str (uuid4_int (entropy w 0))"
  from assms obtain b where live: "redis self = Redis"
    and key: "key = PStr k"
    and b: "encode v = Inr b"
    and held: "db w1 (map char_of k) = Some (RString b)"
    unfolding k_def by (rule stored_after_store)
  have enc: "utf8_encode k = Inr (map char_of k)"
    unfolding k_def by (rule utf8_encode_uuid_str)
  note get = Cache_get_live [OF live enc, of _ w1, unfolded held]
  from store_then_get_value [OF assms] b
  have stg: "fst (store_then_get self v w) = Inr (PBytes b)"
    by auto
  have raw: "fst (Cache_get self k None w1) = Inr (PBytes b)"
    by (simp add: get)
  have bytes_back: "\<forall>x. v = PBytes x \<longrightarrow> fst (store_then_get self v w) = Inr v"
    using stg b by auto
  have str_back: "\<forall>s. v = PStr s \<longrightarrow> fst (Cache_get_str self k w1) = Inr v"
    using b by (auto simp: Cache_get_str_def get decode_utf8_def utf8_decode_encode)
  have int_back: "\<forall>i. v = PInt i \<longrightarrow> fst (Cache_get_int self k w1) = Inr v"
    using b by (auto simp: Cache_get_int_def get to_int_def py_int_decimal)
  from key b stg raw bytes_back str_back int_back show ?thesis
    by blast
qed

lemma accepted_text_example: "accepted (\<lambda>c. False) ([PStr (ascii ''hi'')], [])"
  by (simp add: accepted_def bind_data_def ascii_def utf8_encode_cp_def py_str_tuple_def
      repr_quoted_def quote_for_def repr_char_def)

lemma store_text_example:
  "fst (Cache_store live [PStr (ascii ''hi'')] [] fresh_world) = Inr (PStr (uuid_str (uuid4_int 0)))"
  using Cache_store_succeeds [of live 0 fresh_world "[PStr (ascii ''hi'')]" "[]"]
  by (simp add: fresh_world_simps recorded_fresh accepted_text_example live_def)

lemma enc_hi: "utf8_encode (ascii ''hi'') = Inr ''hi''"
  by (simp add: utf8_encode_ascii)

theorem get_after_store_witness:
  "fst (Cache_store live [PStr (ascii ''hi'')] [] fresh_world) = Inr (PStr (uuid_str (uuid4_int 0)))
   \<and> fst (store_then_get live (PStr (ascii ''hi'')) fresh_world) = Inr (PBytes ''hi'')
   \<and> fst (Cache_get_str live (uuid_str (uuid4_int 0))
          (snd (Cache_store live [PStr (ascii ''hi'')] [] fresh_world))) = Inr (PStr (ascii ''hi''))"
proof -
  have run: "Cache_store live [PStr (ascii ''hi'')] [] fresh_world
      = (Inr (PStr (uuid_str (uuid4_int 0))),
         snd (Cache_store live [PStr (ascii ''hi'')] [] fresh_world))"
    using store_text_example by (simp add: prod_eq_iff)
  from get_after_store [OF run] store_text_example show ?thesis
    by (auto simp: enc_hi)
qed

text \<open>
  The claim C1 as stated fails for text: \<^verbatim>\<open>get(store("hi"))\<close> is the bytes \<^verbatim>\<open>b"hi"\<close>, which
  is not the \<^verbatim>\<open>str\<close> that was stored.
\<close>

theorem get_after_store_text_is_bytes:
  "fst (store_then_get live (PStr (ascii ''hi'')) fresh_world) = Inr (PBytes ''hi'')
   \<and> fst (store_then_get live (PStr (ascii ''hi'')) fresh_world) \<noteq> Inr (PStr (ascii ''hi''))"
proof -
  have run: "Cache_store live [PStr (ascii ''hi'')] [] fresh_world
      = (Inr (PStr (uuid_str (uuid4_int 0))),
         snd (Cache_store live [PStr (ascii ''hi'')] [] fresh_world))"
    using store_text_example by (simp add: prod_eq_iff)
  from store_then_get_value [OF run] show ?thesis
    by (auto simp: enc_hi)
qed

subsection \<open>The wrappers\<close>

lemma count_calls_binds_self:
  "binds_self kwargs \<Longrightarrow> body (count_calls m) self args kwargs w = (Inl TypeError, w)"
  by (simp add: count_calls_def raise_def)

lemma call_history_binds_self:
  "binds_self kwargs \<Longrightarrow> body (call_history m) self args kwargs w = (Inl TypeError, w)"
  by (simp add: call_history_def raise_def)

lemma count_calls_detached:
  "redis self \<noteq> Redis \<Longrightarrow> \<not> binds_self kwargs \<Longrightarrow>
   body (count_calls m) self args kwargs w = body m self args kwargs w"
  by (simp add: count_calls_def)

lemma call_history_detached:
  "redis self \<noteq> Redis \<Longrightarrow> \<not> binds_self kwargs \<Longrightarrow>
   body (call_history m) self args kwargs w = body m self args kwargs w"
  by (cases "body m self args kwargs w"; cases "fst (body m self args kwargs w)")
    (simp_all add: call_history_def then_do_def ret_def)

lemma count_calls_live:
  "redis self = Redis \<Longrightarrow> \<not> binds_self kwargs \<Longrightarrow>
   body (count_calls m) self args kwargs w =
     then_do (r_incr (qualname m)) (\<lambda>n. body m self args kwargs) w"
  by (simp add: count_calls_def then_do_assoc)

lemma call_history_live:
  "redis self = Redis \<Longrightarrow> \<not> binds_self kwargs \<Longrightarrow>
   body (call_history m) self args kwargs w =
     then_do (r_rpush (qualname m @ ascii '':inputs'')
                (PStr (py_str_tuple (unicode_printable w) args))) (\<lambda>n.
     then_do (body m self args kwargs) (\<lambda>output.
     then_do (r_rpush (qualname m @ ascii '':outputs'') output) (\<lambda>n.
     ret output))) w"
  by (simp add: call_history_def Let_def then_do_assoc then_do_py_str)

text \<open>
  C4, as the code has it. Both wrappers keep the wrapped method's qualified name. A call
  with a keyword argument named \<^verbatim>\<open>self\<close> clashes with the wrapper's own first parameter:
  it raises \<^verbatim>\<open>TypeError\<close>, nothing is sent and the method is not called. For every other
  argument list the wrappers call the method with the arguments they were given and hand
  its outcome to the caller, as long as their own commands to the store succeed:
  \<^item> when the handle is not a client, a wrapped call is the plain call;
  \<^item> \<^verbatim>\<open>count_calls\<close>: once \<^verbatim>\<open>INCR\<close> has succeeded, the wrapped call is the plain call on
    the world \<^verbatim>\<open>INCR\<close> left; if \<^verbatim>\<open>INCR\<close> fails, its error is raised and the method is
    not called;
  \<^item> \<^verbatim>\<open>call_history\<close>: if the \<^verbatim>\<open>RPUSH\<close> of the arguments fails, its error is raised and
    the method is not called; once the arguments are recorded, an error raised by the
    method reaches the caller unchanged; a value it returns reaches the caller unchanged
    if the value can be recorded, and otherwise the error of that \<^verbatim>\<open>RPUSH\<close> is raised in
    its place.
\<close>

theorem wrappers_pass_through:
  "qualname (count_calls m) = qualname m \<and> qualname (call_history m) = qualname m
   \<and> (binds_self kwargs \<longrightarrow>
        body (count_calls m) self args kwargs w = (Inl TypeError, w)
        \<and> body (call_history m) self args kwargs w = (Inl TypeError, w))
   \<and> (\<not> binds_self kwargs \<and> redis self \<noteq> Redis \<longrightarrow>
        body (count_calls m) self args kwargs w = body m self args kwargs w
        \<and> body (call_history m) self args kwargs w = body m self args kwargs w)
   \<and> (\<forall>n w1. \<not> binds_self kwargs \<and> redis self = Redis
        \<and> r_incr (qualname m) w = (Inr n, w1) \<longrightarrow>
        body (count_calls m) self args kwargs w = body m self args kwargs w1)
   \<and> (\<forall>e w1. \<not> binds_self kwargs \<and> redis self = Redis
        \<and> r_incr (qualname m) w = (Inl e, w1) \<longrightarrow>
        body (count_calls m) self args kwargs w = (Inl e, w1))
   \<and> (\<forall>e w1. \<not> binds_self kwargs \<and> redis self = Redis
        \<and> r_rpush (qualname m @ ascii '':inputs'')
             (PStr (py_str_tuple (unicode_printable w) args)) w = (Inl e, w1) \<longrightarrow>
        body (call_history m) self args kwargs w = (Inl e, w1))
   \<and> (\<forall>n w1 e w2. \<not> binds_self kwargs \<and> redis self = Redis
        \<and> r_rpush (qualname m @ ascii '':inputs'')
             (PStr (py_str_tuple (unicode_printable w) args)) w = (Inr n, w1)
        \<and> body m self args kwargs w1 = (Inl e, w2) \<longrightarrow>
        body (call_history m) self args kwargs w = (Inl e, w2))
   \<and> (\<forall>n w1 v w2 n' w3. \<not> binds_self kwargs \<and> redis self = Redis
        \<and> r_rpush (qualname m @ ascii '':inputs'')
             (PStr (py_str_tuple (unicode_printable w) args)) w = (Inr n, w1)
        \<and> body m self args kwargs w1 = (Inr v, w2)
        \<and> r_rpush (qualname m @ ascii '':outputs'') v w2 = (Inr n', w3) \<longrightarrow>
        body (call_history m) self args kwargs w = (Inr v, w3))
   \<and> (\<forall>n w1 v w2 e w3. \<not> binds_self kwargs \<and> redis self = Redis
        \<and> r_rpush (qualname m @ ascii '':inputs'')
             (PStr (py_str_tuple (unicode_printable w) args)) w = (Inr n, w1)
        \<and> body m self args kwargs w1 = (Inr v, w2)
        \<and> r_rpush (qualname m @ ascii '':outputs'') v w2 = (Inl e, w3) \<longrightarrow>
        body (call_history m) self args kwargs w = (Inl e, w3))"
proof (intro conjI allI impI; (elim conjE)?)
  show "qualname (count_calls m) = qualname m"
    by (simp add: count_calls_def)
  show "qualname (call_history m) = qualname m"
    by (simp add: call_history_def)
next
  assume "binds_self kwargs"
  then show "body (count_calls m) self args kwargs w = (Inl TypeError, w)"
    by (rule count_calls_binds_self)
next
  assume "binds_self kwargs"
  then show "body (call_history m) self args kwargs w = (Inl TypeError, w)"
    by (rule call_history_binds_self)
next
  assume "redis self \<noteq> Redis" and "\<not> binds_self kwargs"
  then show "body (count_calls m) self args kwargs w = body m self args kwargs w"
    by (rule count_calls_detached)
next
  assume "redis self \<noteq> Redis" and "\<not> binds_self kwargs"
  then show "body (call_history m) self args kwargs w = body m self args kwargs w"
    by (rule call_history_detached)
next
  fix n w1
  assume "\<not> binds_self kwargs" and "redis self = Redis"
    and "r_incr (qualname m) w = (Inr n, w1)"
  then show "body (count_calls m) self args kwargs w = body m self args kwargs w1"
    by (simp add: count_calls_live then_do_def)
next
  fix e w1
  assume "\<not> binds_self kwargs" and "redis self = Redis"
    and "r_incr (qualname m) w = (Inl e, w1)"
  then show "body (count_calls m) self args kwargs w = (Inl e, w1)"
    by (simp add: count_calls_live then_do_def)
next
  fix e w1
  assume "\<not> binds_self kwargs" and "redis self = Redis"
    and "r_rpush (qualname m @ ascii '':inputs'')
           (PStr (py_str_tuple (unicode_printable w) args)) w = (Inl e, w1)"
  then show "body (call_history m) self args kwargs w = (Inl e, w1)"
    by (simp add: call_history_live then_do_def)
next
  fix n w1 e w2
  assume "\<not> binds_self kwargs" and "redis self = Redis"
    and "r_rpush (qualname m @ ascii '':inputs'')
           (PStr (py_str_tuple (unicode_printable w) args)) w = (Inr n, w1)"
    and "body m self args kwargs w1 = (Inl e, w2)"
  then show "body (call_history m) self args kwargs w = (Inl e, w2)"
    by (simp add: call_history_live then_do_def)
next
  fix n w1 v w2 n' w3
  assume "\<not> binds_self kwargs" and "redis self = Redis"
    and "r_rpush (qualname m @ ascii '':inputs'')
           (PStr (py_str_tuple (unicode_printable w) args)) w = (Inr n, w1)"
    and "body m self args kwargs w1 = (Inr v, w2)"
    and "r_rpush (qualname m @ ascii '':outputs'') v w2 = (Inr n', w3)"
  then show "body (call_history m) self args kwargs w = (Inr v, w3)"
    by (simp add: call_history_live then_do_def ret_def)
next
  fix n w1 v w2 e w3
  assume "\<not> binds_self kwargs" and "redis self = Redis"
    and "r_rpush (qualname m @ ascii '':inputs'')
           (PStr (py_str_tuple (unicode_printable w) args)) w = (Inr n, w1)"
    and "body m self args kwargs w1 = (Inr v, w2)"
    and "r_rpush (qualname m @ ascii '':outputs'') v w2 = (Inl e, w3)"
  then show "body (call_history m) self args kwargs w = (Inl e, w3)"
    by (simp add: call_history_live then_do_def)
qed

lemma live_simps: "redis live = Redis" "redis detached \<noteq> Redis"
  by (simp_all add: live_def detached_def)

lemma returns_none_simps:
  "qualname returns_none = ascii ''k''" "body returns_none self args kwargs w = (Inr PNone, w)"
  by (simp_all add: returns_none_def ret_def)

lemma enc_k_inputs: "utf8_encode (ascii ''k'' @ ascii '':inputs'') = Inr ''k:inputs''"
  using utf8_encode_suffix [OF enc_k, of "'':inputs''"] by simp

lemma enc_k_outputs: "utf8_encode (ascii ''k'' @ ascii '':outputs'') = Inr ''k:outputs''"
  using utf8_encode_suffix [OF enc_k, of "'':outputs''"] by simp

lemma enc_empty_tuple: "encode (PStr (py_str_tuple p [])) = Inr ''()''"
  by (simp add: py_str_tuple_def ascii_def utf8_encode_cp_def char_of_eq_iff)

lemma record_none_fresh:
  "r_rpush (qualname returns_none @ ascii '':inputs'')
     (PStr (py_str_tuple (unicode_printable fresh_world) [])) fresh_world =
   (Inr 1, fresh_world\<lparr>wire := [RPUSH ''k:inputs'' ''()''],
                        db := [''k:inputs'' \<mapsto> RList [''()'']]\<rparr>)"
  using r_rpush_ok [OF enc_k_inputs enc_empty_tuple, of fresh_world "[]"]
  by (simp add: returns_none_simps fresh_world_simps list_value_def)

text \<open>
  The claim C4 as stated fails for a method whose result the client cannot serialise:
  the method returns \<^verbatim>\<open>None\<close>, the call through \<^verbatim>\<open>call_history\<close> raises \<^verbatim>\<open>DataError\<close>.
\<close>

theorem call_history_hides_unserialisable_result:
  "fst (body returns_none live [] [] fresh_world) = Inr PNone
   \<and> fst (body (call_history returns_none) live [] [] fresh_world) = Inl DataError"
  by (simp add: call_history_live [OF live_simps(1) binds_self_simps(1)] then_do_def
      record_none_fresh returns_none_simps(2))
    (simp add: r_rpush_def returns_none_simps enc_k_outputs)


lemma store_plain_simps:
  "qualname store_plain = ascii ''Cache.store''"
  "body store_plain self args kwargs =
     then_do (lift (bind_data args kwargs)) (\<lambda>data.
     then_do uuid4 (\<lambda>u.
     then_do (client self (r_set (uuid_str u) data)) (\<lambda>ok.
     ret (PStr (uuid_str u)))))"
  by (simp_all add: store_plain_def Let_def)

theorem wrappers_pass_through_witness:
  "body (count_calls returns_none) detached [] [] fresh_world
     = body returns_none detached [] [] fresh_world
   \<and> body (call_history returns_none) detached [] [] fresh_world
     = body returns_none detached [] [] fresh_world
   \<and> fst (body (count_calls returns_none) live [] [] fresh_world) = Inr PNone
   \<and> fst (body (count_calls returns_none) live [] [] garbled_world)
     = Inl (ResponseError NotAnInteger)
   \<and> fst (body (call_history store_plain) live [] [] fresh_world) = Inl TypeError
   \<and> fst (body (call_history store_plain) live [PInt 7] [] fresh_world)
     = Inr (PStr (uuid_str (uuid4_int 0)))
   \<and> fst (body (call_history returns_none) live [] [] fresh_world) = Inl DataError
   \<and> fst (body (call_history returns_none) live [] []
          (fresh_world\<lparr>db := [''k:inputs'' \<mapsto> RString ''x'']\<rparr>))
     = Inl (ResponseError WRONGTYPE)
   \<and> body (count_calls returns_none) live [] [(ascii ''self'', PInt 1)] fresh_world
     = (Inl TypeError, fresh_world)
   \<and> body (call_history returns_none) live [] [(ascii ''self'', PInt 1)] fresh_world
     = (Inl TypeError, fresh_world)"
proof -
  note thm_none = wrappers_pass_through [where m = returns_none]
  note thm_store = wrappers_pass_through [where m = store_plain]
  note nb = binds_self_simps(1) and lv = live_simps(1)
  \<comment> \<open>a keyword named self\<close>
  have g: "body (count_calls returns_none) live [] [(ascii ''self'', PInt 1)] fresh_world
       = (Inl TypeError, fresh_world)"
    "body (call_history returns_none) live [] [(ascii ''self'', PInt 1)] fresh_world
       = (Inl TypeError, fresh_world)"
    using thm_none [where self = live and args = "[]" and kwargs = "[(ascii ''self'', PInt 1)]" and w = fresh_world]
    by (simp_all only: binds_self_simps(2) simp_thms)
  \<comment> \<open>the arguments cannot be recorded\<close>
  define wk where "wk = fresh_world\<lparr>db := [''k:inputs'' \<mapsto> RString ''x'']\<rparr>"
  have "r_rpush (qualname returns_none @ ascii '':inputs'')
      (PStr (py_str_tuple (unicode_printable wk) [])) wk
      = (Inl (ResponseError WRONGTYPE), wk\<lparr>wire := [RPUSH ''k:inputs'' ''()'']\<rparr>)"
    using enc_empty_tuple [of "unicode_printable wk"]
    by (simp add: r_rpush_def returns_none_simps enc_k_inputs srv_rpush_def send_def wk_def
        fresh_world_def del: encode.simps)
  then have "body (call_history returns_none) live [] [] wk
      = (Inl (ResponseError WRONGTYPE), wk\<lparr>wire := [RPUSH ''k:inputs'' ''()'']\<rparr>)"
    by (rule thm_none [where self = live and args = "[]" and kwargs = "[]" and w = wk,
          THEN conjunct2, THEN conjunct2, THEN conjunct2, THEN conjunct2, THEN conjunct2, THEN conjunct2, THEN conjunct1, rule_format, OF conjI [OF nb conjI [OF lv]]])
  then have h: "fst (body (call_history returns_none) live [] [] wk) = Inl (ResponseError WRONGTYPE)"
    by simp
  \<comment> \<open>no client\<close>
  have a: "body (count_calls returns_none) detached [] [] fresh_world
       = body returns_none detached [] [] fresh_world"
    "body (call_history returns_none) detached [] [] fresh_world
       = body returns_none detached [] [] fresh_world"
    using thm_none [where self = detached and args = "[]" and kwargs = "[]" and w = fresh_world,
        THEN conjunct2, THEN conjunct2, THEN conjunct2, THEN conjunct1, rule_format, OF conjI [OF nb live_simps(2)]]
    by (rule conjunct1, rule conjunct2)
  \<comment> \<open>counting succeeds\<close>
  define wc where "wc = fresh_world\<lparr>wire := [INCR ''k''], db := [''k'' \<mapsto> RString (decimal 1)]\<rparr>"
  have "r_incr (qualname returns_none) fresh_world = (Inr 1, wc)"
    using r_incr_unset [OF enc_k, of fresh_world]
    by (simp add: returns_none_simps fresh_world_simps wc_def)
  then have "body (count_calls returns_none) live [] [] fresh_world
      = body returns_none live [] [] wc"
    by (rule thm_none [where self = live and args = "[]" and kwargs = "[]" and w = fresh_world,
          THEN conjunct2, THEN conjunct2, THEN conjunct2, THEN conjunct2, THEN conjunct1, rule_format, OF conjI [OF nb conjI [OF lv]]])
  then have b: "fst (body (count_calls returns_none) live [] [] fresh_world) = Inr PNone"
    by (simp add: returns_none_simps)
  \<comment> \<open>counting fails\<close>
  have "r_incr (qualname returns_none) garbled_world
      = (Inl (ResponseError NotAnInteger), garbled_world\<lparr>wire := [INCR ''k'']\<rparr>)"
    by (simp add: r_incr_def returns_none_simps enc_k garbled_world_def fresh_world_def
        srv_incr_def string2ll_def is_digit_def send_def)
  then have "body (count_calls returns_none) live [] [] garbled_world
      = (Inl (ResponseError NotAnInteger), garbled_world\<lparr>wire := [INCR ''k'']\<rparr>)"
    by (rule thm_none [where self = live and args = "[]" and kwargs = "[]" and w = garbled_world,
          THEN conjunct2, THEN conjunct2, THEN conjunct2, THEN conjunct2, THEN conjunct2, THEN conjunct1, rule_format, OF conjI [OF nb conjI [OF lv]]])
  then have c: "fst (body (count_calls returns_none) live [] [] garbled_world)
      = Inl (ResponseError NotAnInteger)"
    by simp
  \<comment> \<open>the result cannot be recorded\<close>
  define w1n where "w1n = fresh_world\<lparr>wire := [RPUSH ''k:inputs'' ''()''],
      db := [''k:inputs'' \<mapsto> RList [''()'']]\<rparr>"
  have d1: "r_rpush (qualname returns_none @ ascii '':inputs'')
      (PStr (py_str_tuple (unicode_printable fresh_world) [])) fresh_world = (Inr 1, w1n)"
    unfolding w1n_def by (rule record_none_fresh)
  have d2: "body returns_none live [] [] w1n = (Inr PNone, w1n)"
    by (simp add: returns_none_simps)
  have d3: "r_rpush (qualname returns_none @ ascii '':outputs'') PNone w1n = (Inl DataError, w1n)"
    by (simp add: r_rpush_def returns_none_simps enc_k_outputs)
  have "body (call_history returns_none) live [] [] fresh_world = (Inl DataError, w1n)"
    by (rule thm_none [where self = live and args = "[]" and kwargs = "[]" and w = fresh_world,
          THEN conjunct2, THEN conjunct2, THEN conjunct2, THEN conjunct2, THEN conjunct2, THEN conjunct2, THEN conjunct2, THEN conjunct2, THEN conjunct2, rule_format, OF conjI [OF nb conjI [OF lv conjI [OF d1 conjI [OF d2 d3]]]]])
  then have d: "fst (body (call_history returns_none) live [] [] fresh_world) = Inl DataError"
    by simp
  \<comment> \<open>the method raises\<close>
  define w1s where "w1s = fresh_world\<lparr>wire := [RPUSH ''Cache.store:inputs'' ''()''],
      db := [''Cache.store:inputs'' \<mapsto> RList [''()'']]\<rparr>"
  have e1: "r_rpush (qualname store_plain @ ascii '':inputs'')
      (PStr (py_str_tuple (unicode_printable fresh_world) [])) fresh_world = (Inr 1, w1s)"
    using r_rpush_ok [OF enc_inputs enc_empty_tuple, of fresh_world "[]"]
    by (simp add: store_plain_simps(1) fresh_world_simps list_value_def w1s_def)
  have e2: "body store_plain live [] [] w1s = (Inl TypeError, w1s)"
    by (simp add: store_plain_simps(2) bind_data_def raise_def)
  have "body (call_history store_plain) live [] [] fresh_world = (Inl TypeError, w1s)"
    by (rule thm_store [where self = live and args = "[]" and kwargs = "[]" and w = fresh_world,
          THEN conjunct2, THEN conjunct2, THEN conjunct2, THEN conjunct2, THEN conjunct2, THEN conjunct2, THEN conjunct2, THEN conjunct1, rule_format, OF conjI [OF nb conjI [OF lv conjI [OF e1 e2]]]])
  then have e: "fst (body (call_history store_plain) live [] [] fresh_world) = Inl TypeError"
    by simp
  \<comment> \<open>the method returns a key\<close>
  define kb where "kb = map char_of (uuid_str (uuid4_int 0))"
  define w1 where "w1 = fresh_world\<lparr>wire := [RPUSH ''Cache.store:inputs'' ''(7,)''],
      db := [''Cache.store:inputs'' \<mapsto> RList [''(7,)'']]\<rparr>"
  define w2 where "w2 = w1\<lparr>entropy := (\<lambda>i. entropy w1 (Suc i)),
      wire := wire w1 @ [SET kb ''7''], db := (db w1)(kb \<mapsto> RString ''7'')\<rparr>"
  define w3 where "w3 = w2\<lparr>wire := wire w2 @ [RPUSH ''Cache.store:outputs'' kb],
      db := (db w2)(''Cache.store:outputs'' \<mapsto> RList [kb])\<rparr>"
  have enc7: "encode (PStr (py_str_tuple (unicode_printable fresh_world) [PInt 7])) = Inr ''(7,)''"
    by (simp add: fresh_world_simps ascii_def utf8_encode_cp_def py_str_tuple_def decimal_def
        digits.simps digit_char_def char_of_eq_iff)
  have f1: "r_rpush (qualname store_plain @ ascii '':inputs'')
      (PStr (py_str_tuple (unicode_printable fresh_world) [PInt 7])) fresh_world = (Inr 1, w1)"
    using r_rpush_ok [OF enc_inputs enc7, of fresh_world "[]"]
    by (simp add: store_plain_simps(1) fresh_world_simps list_value_def w1_def)
  have b7: "encode (PInt 7) = Inr ''7''"
    by (simp add: decimal_def digits.simps digit_char_def char_of_eq_iff)
  have "r_set (uuid_str (uuid4_int 0)) (PInt 7) (w1\<lparr>entropy := (\<lambda>i. entropy w1 (Suc i))\<rparr>)
      = (Inr True, w2)"
    using r_set_ok [OF utf8_encode_uuid_str b7] by (simp add: w2_def kb_def)
  then have f2: "body store_plain live [PInt 7] [] w1 = (Inr (PStr (uuid_str (uuid4_int 0))), w2)"
    by (simp add: store_plain_simps(2) bind_data_def then_do_def uuid4_def client_def live_simps
        ret_def w1_def fresh_world_simps)
  have kb_neq: "kb \<noteq> ''Cache.store:outputs''"
    unfolding kb_def by (rule uuid_key_neq) simp
  have "list_value (db w2) ''Cache.store:outputs'' = Some []"
    using kb_neq by (simp add: w2_def w1_def list_value_def)
  from r_rpush_ok [where v = "PStr (uuid_str (uuid4_int 0))" and b = kb, OF enc_outputs _ this]
  have f3: "r_rpush (qualname store_plain @ ascii '':outputs'') (PStr (uuid_str (uuid4_int 0))) w2
      = (Inr 1, w3)"
    by (simp add: store_plain_simps(1) utf8_encode_uuid_str kb_def w3_def)
  have "body (call_history store_plain) live [PInt 7] [] fresh_world
      = (Inr (PStr (uuid_str (uuid4_int 0))), w3)"
    by (rule thm_store [where self = live and args = "[PInt 7]" and kwargs = "[]"
          and w = fresh_world,
          THEN conjunct2, THEN conjunct2, THEN conjunct2, THEN conjunct2, THEN conjunct2, THEN conjunct2, THEN conjunct2, THEN conjunct2, THEN conjunct1, rule_format, OF conjI [OF nb conjI [OF lv conjI [OF f1 conjI [OF f2 f3]]]]])
  then have f: "fst (body (call_history store_plain) live [PInt 7] [] fresh_world)
      = Inr (PStr (uuid_str (uuid4_int 0)))"
    by simp
  from a b c d e f g h show ?thesis
    unfolding wk_def by simp
qed

subsection \<open>replay\<close>

lemma replay_loop_zip:
  "map utf8_decode (take (length outs) ins) = map Inr texts \<Longrightarrow>
   replay_loop name (zip ins outs) w =
     (Inr (), w\<lparr>stdout := stdout w @ map (\<lambda>(t, out). entry_line name t out) (zip texts outs)\<rparr>)"
proof (induction ins arbitrary: outs texts w)
  case Nil
  then show ?case by (simp add: ret_def)
next
  case (Cons i ins)
  show ?case
  proof (cases outs)
    case Nil
    with Cons.prems show ?thesis by (simp add: ret_def)
  next
    case (Cons out outs')
    with Cons.prems obtain t ts where texts: "texts = t # ts" and t: "utf8_decode i = Inr t"
      and ts: "map utf8_decode (take (length outs') ins) = map Inr ts"
      by (cases texts) auto
    from Cons.IH [OF ts] show ?thesis
      by (simp add: Cons texts t then_do_def lift_def py_print_def)
  qed
qed

lemma replay_live:
  assumes "redis self = Redis" and "utf8_encode name = Inr k"
  shows "replay (BoundMethod (Instance self) name) =
     then_do (r_get name) (\<lambda>raw_count.
     then_do (lift (int_or_zero raw_count)) (\<lambda>fxn_call_count.
     then_do (py_print (summary_line name fxn_call_count)) (\<lambda>u.
     then_do (r_lrange (name @ ascii '':inputs'') 0 (- 1)) (\<lambda>fxn_inputs.
     then_do (r_lrange (name @ ascii '':outputs'') 0 (- 1)) (\<lambda>fxn_outputs.
     replay_loop name (zip fxn_inputs fxn_outputs))))))"
  using assms by (simp add: replay_def Let_def)

lemma replay_prints:
  assumes live: "redis self = Redis"
    and k: "utf8_encode name = Inr k"
    and raw: "srv_get k (db w) = Inr raw" and n: "int_or_zero raw = Inr n"
    and ins: "list_value (db w) (k @ '':inputs'') = Some ins"
    and outs: "list_value (db w) (k @ '':outputs'') = Some outs"
    and texts: "map utf8_decode (take (length outs) ins) = map Inr texts"
  shows "replay (BoundMethod (Instance self) name) w =
     (Inr (),
      w\<lparr>wire := wire w @ [GET k, LRANGE (k @ '':inputs'') 0 (- 1), LRANGE (k @ '':outputs'') 0 (- 1)],
        stdout := stdout w @ summary_line name n
                    # map (\<lambda>(t, out). entry_line name t out) (zip texts outs)\<rparr>)"
proof -
  have ki: "utf8_encode (name @ ascii '':inputs'') = Inr (k @ '':inputs'')"
    using k by (rule utf8_encode_suffix) simp
  have ko: "utf8_encode (name @ ascii '':outputs'') = Inr (k @ '':outputs'')"
    using k by (rule utf8_encode_suffix) simp
  define w1 where "w1 = w\<lparr>wire := wire w @ [GET k]\<rparr>"
  define w2 where "w2 = w1\<lparr>stdout := stdout w1 @ [summary_line name n]\<rparr>"
  define w3 where "w3 = w2\<lparr>wire := wire w2 @ [LRANGE (k @ '':inputs'') 0 (- 1)]\<rparr>"
  define w4 where "w4 = w3\<lparr>wire := wire w3 @ [LRANGE (k @ '':outputs'') 0 (- 1)]\<rparr>"
  have 1: "r_get name w = (Inr raw, w1)"
    by (simp add: r_get_eq [OF k] raw w1_def)
  have 2: "py_print (summary_line name n) w1 = (Inr (), w2)"
    by (simp add: py_print_def w2_def)
  have 3: "r_lrange (name @ ascii '':inputs'') 0 (- 1) w2 = (Inr ins, w3)"
    by (simp add: r_lrange_eq [OF ki] srv_lrange_all w2_def w1_def ins w3_def)
  have 4: "r_lrange (name @ ascii '':outputs'') 0 (- 1) w3 = (Inr outs, w4)"
    by (simp add: r_lrange_eq [OF ko] srv_lrange_all w3_def w2_def w1_def outs w4_def)
  have 5: "replay_loop name (zip ins outs) w4 =
     (Inr (), w4\<lparr>stdout := stdout w4 @ map (\<lambda>(t, out). entry_line name t out) (zip texts outs)\<rparr>)"
    using texts by (rule replay_loop_zip)
  show ?thesis
    unfolding replay_live [OF live k]
    by (simp add: then_do_def lift_def 1 n 2 3 4 5)
      (simp add: w4_def w3_def w2_def w1_def)
qed









lemma enc_get_name: "utf8_encode (ascii ''Cache.get'') = Inr ''Cache.get''"
  by (rule utf8_encode_ascii) simp

text \<open>
  C7, as the code has it. \<^verbatim>\<open>replay\<close> returns without printing, without raising and
  without a command to the store when its argument is falsy, when it is a function
  without a bound receiver, when the receiver has no attribute \<^verbatim>\<open>_redis\<close>, and when the
  receiver's \<^verbatim>\<open>_redis\<close> is not a client: in each case the world after the call is the
  world before.
\<close>

theorem replay_silent:
  "replay Falsy w = (Inr (), w)
   \<and> replay (Function name) w = (Inr (), w)
   \<and> replay (BoundMethod Object name) w = (Inr (), w)
   \<and> replay (BoundMethod (Instance (self\<lparr>redis := NotRedis\<rparr>)) name) w = (Inr (), w)"
  by (simp add: replay_def ret_def)

text \<open>
  The claim C7 as stated fails for a bound method that was never instrumented: these
  three guards are all there is, so a bound method of a live instance such as
  \<^verbatim>\<open>Cache.get\<close> is not told apart from a wrapped one. \<^verbatim>\<open>replay\<close> queries the store under
  its name and prints the summary line with the count 0.
\<close>

theorem replay_prints_for_unwrapped_method:
  "replay (BoundMethod (Instance live) (ascii ''Cache.get'')) fresh_world =
     (Inr (),
      fresh_world\<lparr>wire := [GET ''Cache.get'', LRANGE ''Cache.get:inputs'' 0 (- 1),
                           LRANGE ''Cache.get:outputs'' 0 (- 1)],
                  stdout := [map of_char ''Cache.get was called 0 times:'']\<rparr>)"
  using replay_prints [OF live_simps(1) enc_get_name, of fresh_world None 0 "[]" "[]" "[]"]
  by (simp add: fresh_world_simps srv_get_def int_or_zero_def list_value_def
      summary_line_def ascii_def decimal_def digits.simps digit_char_def)

subsection \<open>From calls of store to the output of replay\<close>

lemma store_lists_step:
  assumes run: "Cache_store self args kwargs w = (Inr r, w')"
    and ins: "list_value (db w) ''Cache.store:inputs'' = Some ins"
    and outs: "list_value (db w) ''Cache.store:outputs'' = Some outs"
  shows "\<exists>s. utf8_decode s = Inr (py_str_tuple (unicode_printable w) args)
       \<and> list_value (db w') ''Cache.store:inputs'' = Some (ins @ [s])
       \<and> list_value (db w') ''Cache.store:outputs''
           = Some (outs @ [map char_of (uuid_str (uuid4_int (entropy w 0)))])"
proof -
  have neq: "map char_of (uuid_str (uuid4_int (entropy w 0))) \<noteq> ''Cache.store:inputs''"
    by (rule uuid_key_neq) simp
  from run show ?thesis
  proof (rule Cache_store_InrE)
    fix s data b ins' outs' n
    assume s: "utf8_encode (py_str_tuple (unicode_printable w) args) = Inr s"
      and ins': "list_value (db w) ''Cache.store:inputs'' = Some ins'"
      and outs': "list_value (db w) ''Cache.store:outputs'' = Some outs'"
      and w': "w' = w\<lparr>wire := wire w @
                 [RPUSH ''Cache.store:inputs'' s, INCR ''Cache.store'',
                  SET (map char_of (uuid_str (uuid4_int (entropy w 0)))) b,
                  RPUSH ''Cache.store:outputs'' (map char_of (uuid_str (uuid4_int (entropy w 0))))],
               db := (db w)
                 (''Cache.store:inputs'' \<mapsto> RList (ins' @ [s]),
                  ''Cache.store'' \<mapsto> RString (decimal n),
                  map char_of (uuid_str (uuid4_int (entropy w 0))) \<mapsto> RString b,
                  ''Cache.store:outputs'' \<mapsto>
                     RList (outs' @ [map char_of (uuid_str (uuid4_int (entropy w 0)))])),
               entropy := (\<lambda>i. entropy w (Suc i))\<rparr>"
    have "utf8_decode s = Inr (py_str_tuple (unicode_printable w) args)"
      using s by (rule utf8_decode_encode)
    moreover have "ins' = ins" "outs' = outs"
      using ins ins' outs outs' by simp_all
    ultimately show ?thesis
      using neq by (auto simp: w' list_value_def intro!: exI [of _ s])
  qed
qed

lemma store_calls_lists:
  "store_calls self calls w = (Inr keys, w') \<Longrightarrow>
   list_value (db w) ''Cache.store:inputs'' = Some ins0 \<Longrightarrow>
   list_value (db w) ''Cache.store:outputs'' = Some outs0 \<Longrightarrow>
   \<exists>ins. list_value (db w') ''Cache.store:inputs'' = Some (ins0 @ ins)
     \<and> map utf8_decode ins = map (\<lambda>c. Inr (py_str_tuple (unicode_printable w) (fst c))) calls
     \<and> list_value (db w') ''Cache.store:outputs''
         = Some (outs0 @ map (\<lambda>i. map char_of (uuid_str (uuid4_int (entropy w i))))
                           [0..<length calls])"
proof (induction calls arbitrary: w ins0 outs0 keys)
  case Nil
  then show ?case by (simp add: ret_def)
next
  case (Cons c calls)
  obtain args kwargs where c: "c = (args, kwargs)" by (cases c)
  from Cons.prems(1) obtain key w1 where
    1: "Cache_store self args kwargs w = (Inr key, w1)"
    and rest: "then_do (store_calls self calls) (\<lambda>keys. ret (key # keys)) w1 = (Inr keys, w')"
    unfolding c by (auto elim: then_do_InrE)
  from rest obtain ks where 2: "store_calls self calls w1 = (Inr ks, w')"
    by (auto elim!: then_do_InrE simp: ret_def)
  note fr = Cache_store_frame [OF 1]
  from store_lists_step [OF 1 Cons.prems(2,3)] obtain s where
    s: "utf8_decode s = Inr (py_str_tuple (unicode_printable w) args)"
    and i1: "list_value (db w1) ''Cache.store:inputs'' = Some (ins0 @ [s])"
    and o1: "list_value (db w1) ''Cache.store:outputs''
           = Some (outs0 @ [map char_of (uuid_str (uuid4_int (entropy w 0)))])"
    by blast
  from Cons.IH [OF 2 i1 o1] obtain ins where
    i2: "list_value (db w') ''Cache.store:inputs'' = Some ((ins0 @ [s]) @ ins)"
    and d: "map utf8_decode ins = map (\<lambda>c. Inr (py_str_tuple (unicode_printable w1) (fst c))) calls"
    and o2: "list_value (db w') ''Cache.store:outputs''
         = Some ((outs0 @ [map char_of (uuid_str (uuid4_int (entropy w 0)))])
                 @ map (\<lambda>i. map char_of (uuid_str (uuid4_int (entropy w1 i)))) [0..<length calls])"
    by blast
  have "list_value (db w') ''Cache.store:inputs'' = Some (ins0 @ (s # ins))"
    using i2 by simp
  moreover have "map utf8_decode (s # ins)
      = map (\<lambda>c. Inr (py_str_tuple (unicode_printable w) (fst c))) (c # calls)"
    using s d by (simp add: c fr)
  moreover have "list_value (db w') ''Cache.store:outputs''
         = Some (outs0 @ map (\<lambda>i. map char_of (uuid_str (uuid4_int (entropy w i))))
                           [0..<length (c # calls)])"
    using o2 by (simp add: fr upt_conv_Cons map_Suc_upt [symmetric] del: upt_Suc)
  ultimately show ?case
    by blast
qed

lemma replay_after_store_calls:
  assumes live: "redis self = Redis"
    and run: "store_calls self calls (snd (Cache_init w0)) = (Inr keys, w)"
  shows "fst (replay (BoundMethod (Instance self) (ascii ''Cache.store'')) w) = Inr ()
       \<and> stdout (snd (replay (BoundMethod (Instance self) (ascii ''Cache.store'')) w)) =
           stdout w @ summary_line (ascii ''Cache.store'') (int (length calls))
             # map (\<lambda>(c, i). entry_line (ascii ''Cache.store'')
                        (py_str_tuple (unicode_printable w0) (fst c))
                        (map char_of (uuid_str (uuid4_int (entropy w0 i)))))
                 (zip calls [0..<length calls])"
proof -
  define w1 where "w1 = snd (Cache_init w0)"
  have w1: "db w1 = Map.empty" "entropy w1 = entropy w0" "unicode_printable w1 = unicode_printable w0"
    by (simp_all add: w1_def Cache_init_eq)
  have "recorded ''Cache.store'' 0 (db w1)"
    by (simp add: w1 recorded_fresh)
  from store_calls_recorded [OF this run [folded w1_def]]
  have rec: "recorded ''Cache.store'' (length calls) (db w)"
    by simp
  define raw where "raw = (if length calls = 0 then None else Some (decimal (int (length calls))))"
  have raw: "srv_get ''Cache.store'' (db w) = Inr raw"
    using rec by (simp add: recorded_def srv_get_def raw_def)
  have n: "int_or_zero raw = Inr (int (length calls))"
    by (simp add: raw_def int_or_zero_def py_int_decimal decimal_nonempty)
  from store_calls_lists [OF run [folded w1_def], of "[]" "[]"] obtain ins where
    ins: "list_value (db w) ''Cache.store:inputs'' = Some ins"
    and dec: "map utf8_decode ins = map (\<lambda>c. Inr (py_str_tuple (unicode_printable w0) (fst c))) calls"
    and outs: "list_value (db w) ''Cache.store:outputs''
         = Some (map (\<lambda>i. map char_of (uuid_str (uuid4_int (entropy w0 i)))) [0..<length calls])"
    by (auto simp: w1 list_value_def)
  define outs where "outs = map (\<lambda>i. map char_of (uuid_str (uuid4_int (entropy w0 i)))) [0..<length calls]"
  define texts where "texts = map (\<lambda>c. py_str_tuple (unicode_printable w0) (fst c)) calls"
  have len: "length ins = length calls"
    using arg_cong [OF dec, of length] by simp
  have texts: "map utf8_decode (take (length outs) ins) = map Inr texts"
    using dec len by (simp add: outs_def texts_def)
  have z: "map (\<lambda>(t, out). entry_line (ascii ''Cache.store'') t out) (zip texts outs)
      = map (\<lambda>(c, i). entry_line (ascii ''Cache.store'')
                        (py_str_tuple (unicode_printable w0) (fst c))
                        (map char_of (uuid_str (uuid4_int (entropy w0 i)))))
                 (zip calls [0..<length calls])"
    unfolding texts_def outs_def by (auto simp: zip_map_map)
  from replay_prints [OF live enc_name raw n, of ins outs texts] ins outs texts
  show ?thesis
    by (simp add: outs_def [symmetric] z)
qed


lemma store_calls_stdout:
  "store_calls self calls w = (Inr keys, w') \<Longrightarrow> stdout w' = stdout w"
proof (induction calls arbitrary: w keys)
  case Nil
  then show ?case by (simp add: ret_def)
next
  case (Cons c calls)
  obtain args kwargs where c: "c = (args, kwargs)" by (cases c)
  from Cons.prems obtain key w1 where
    1: "Cache_store self args kwargs w = (Inr key, w1)"
    and rest: "then_do (store_calls self calls) (\<lambda>keys. ret (key # keys)) w1 = (Inr keys, w')"
    unfolding c by (auto elim: then_do_InrE)
  from rest obtain ks where 2: "store_calls self calls w1 = (Inr ks, w')"
    by (auto elim!: then_do_InrE simp: ret_def)
  from Cons.IH [OF 2] Cache_store_frame(3) [OF 1] show ?case
    by simp
qed

lemma example_calls_succeed:
  "fst (store_calls live example_calls (snd (Cache_init fresh_world)))
     = Inr [PStr (uuid_str (uuid4_int 0)), PStr (uuid_str (uuid4_int 1)),
            PStr (uuid_str (uuid4_int 2))]"
proof -
  define w1 where "w1 = snd (Cache_init fresh_world)"
  have w1: "unicode_printable w1 = (\<lambda>c. False)" "db w1 = Map.empty" "entropy w1 = of_nat"
    by (simp_all add: w1_def Cache_init_eq fresh_world_def fun_eq_iff)
  have acc: "list_all (accepted (unicode_printable w1)) example_calls"
    unfolding w1
    by (simp add: example_calls_def accepted_def bind_data_def ascii_def utf8_encode_cp_def
        py_str_tuple_def repr_quoted_def quote_for_def repr_char_def bytes_repr_def
        decimal_def digits.simps digit_char_def)
  have rec: "recorded ''Cache.store'' 0 (db w1)"
    by (simp add: w1 recorded_fresh)
  have "fst (store_calls live example_calls w1) =
      Inr (map (\<lambda>i. PStr (uuid_str (uuid4_int (entropy w1 i)))) [0..<length example_calls])"
    using _ rec _ acc by (rule store_calls_succeed) (simp_all add: live_def example_calls_def)
  then show ?thesis
    unfolding w1_def [symmetric]
    by (simp add: w1 example_calls_def upt_conv_Cons del: upt_Suc)
qed

text \<open>
  The scenario of three calls followed by \<^verbatim>\<open>replay\<close>: a summary line with the count 3,
  then one line per call, each pairing the printed arguments with the key returned.
\<close>

lemma replay_after_example_calls:
  "stdout (snd (replay (BoundMethod (Instance live) (ascii ''Cache.store''))
       (snd (store_calls live example_calls (snd (Cache_init fresh_world))))))
   = [summary_line (ascii ''Cache.store'') 3,
      entry_line (ascii ''Cache.store'') (py_str_tuple (\<lambda>c. False) [PStr (ascii ''a'')])
        (map char_of (uuid_str (uuid4_int 0))),
      entry_line (ascii ''Cache.store'') (py_str_tuple (\<lambda>c. False) [PInt 7])
        (map char_of (uuid_str (uuid4_int 1))),
      entry_line (ascii ''Cache.store'') (py_str_tuple (\<lambda>c. False) [])
        (map char_of (uuid_str (uuid4_int 2)))]"
proof -
  define w where "w = snd (store_calls live example_calls (snd (Cache_init fresh_world)))"
  have run: "store_calls live example_calls (snd (Cache_init fresh_world))
      = (Inr [PStr (uuid_str (uuid4_int 0)), PStr (uuid_str (uuid4_int 1)),
              PStr (uuid_str (uuid4_int 2))], w)"
    using example_calls_succeed by (simp add: prod_eq_iff w_def)
  have out: "stdout w = []"
    using store_calls_stdout [OF run] by (simp add: Cache_init_eq fresh_world_def)
  from replay_after_store_calls [OF live_simps(1) run] out show ?thesis
    unfolding w_def [symmetric]
    by (simp add: example_calls_def fresh_world_simps upt_conv_Cons del: upt_Suc)
qed

text \<open>
  A value the client refuses leaves the bookkeeping one step ahead of the outputs: the
  arguments are recorded and the call is counted before \<^verbatim>\<open>SET\<close> is attempted.
\<close>

lemma store_refused_value:
  assumes live: "redis self = Redis"
    and rec: "recorded ''Cache.store'' n (db w)"
    and n: "int n < 2 ^ 63 - 1"
  shows "fst (Cache_store self [PNone] [] w) = Inl DataError
       \<and> db (snd (Cache_store self [PNone] [] w)) ''Cache.store''
           = Some (RString (decimal (int n + 1)))
       \<and> map_option length (list_value (db (snd (Cache_store self [PNone] [] w)))
             ''Cache.store:inputs'') = Some (Suc n)
       \<and> map_option length (list_value (db (snd (Cache_store self [PNone] [] w)))
             ''Cache.store:outputs'') = Some n"
proof -
  from rec obtain ins outs where ins: "list_value (db w) ''Cache.store:inputs'' = Some ins"
    and outs: "list_value (db w) ''Cache.store:outputs'' = Some outs"
    and len: "length ins = n" "length outs = n"
    by (auto simp: recorded_def)
  have s: "encode (PStr (py_str_tuple (unicode_printable w) [PNone])) = Inr ''(None,)''"
    by (simp add: py_str_tuple_def ascii_def utf8_encode_cp_def char_of_eq_iff)
  define w1 where "w1 = w\<lparr>wire := wire w @ [RPUSH ''Cache.store:inputs'' ''(None,)''],
      db := (db w)(''Cache.store:inputs'' \<mapsto> RList (ins @ [''(None,)'']))\<rparr>"
  define w2 where "w2 = w1\<lparr>wire := wire w1 @ [INCR ''Cache.store''],
      db := (db w1)(''Cache.store'' \<mapsto> RString (decimal (int n + 1)))\<rparr>"
  define w3 where "w3 = w2\<lparr>entropy := (\<lambda>i. entropy w2 (Suc i))\<rparr>"
  have 1: "r_rpush (ascii ''Cache.store'' @ ascii '':inputs'')
      (PStr (py_str_tuple (unicode_printable w) [PNone])) w = (Inr (int (length ins) + 1), w1)"
    unfolding w1_def by (rule r_rpush_ok [OF enc_inputs s ins])
  have 2: "r_incr (ascii ''Cache.store'') w1 = (Inr (int n + 1), w2)"
    unfolding w2_def using rec n by (rule recorded_incr) (simp add: w1_def)
  have 3: "uuid4 w2 = (Inr (uuid4_int (entropy w 0)), w3)"
    by (simp add: uuid4_def w3_def w2_def w1_def)
  have 4: "r_set (uuid_str (uuid4_int (entropy w 0))) PNone w3 = (Inl DataError, w3)"
    by (simp add: r_set_def utf8_encode_uuid_str)
  have run: "Cache_store self [PNone] [] w = (Inl DataError, w3)"
    unfolding Cache_store_live [OF live binds_self_simps(1)]
    by (simp add: then_do_def lift_def bind_data_def 1 2 3 4)
  show ?thesis
    unfolding run using ins outs len
    by (simp add: w3_def w2_def w1_def list_value_def)
qed

end
